theory Spec2Isabelle
  imports Complex_Main "HOL-Library.AList"
begin

section \<open>Python values\<close>

text \<open>
  The pipeline of \<^verbatim>\<open>pipeline.py\<close> works on what \<^verbatim>\<open>json.loads\<close> returns: dictionaries,
  lists, strings, integers, floats, booleans and \<^verbatim>\<open>None\<close>. A Python \<^verbatim>\<open>str\<close> is a
  \<^typ>\<open>string\<close> whose characters are code points (those below 256); a dictionary is an
  association list in insertion order, looked up with \<^const>\<open>map_of\<close>; a float is its
  rational value, an infinity or a NaN.
\<close>

datatype pyfloat = Finite rat | PosInf | NegInf | NaN

datatype json =
    JNull
  | JBool bool
  | JInt int
  | JFloat pyfloat
  | JStr string
  | JList "json list"
  | JObj "(string \<times> json) list"

text \<open>Every \<^verbatim>\<open>raise\<close> of the source and every exception of a method call on a value of
  the wrong type is a value of this type.\<close>

datatype error =
    AttributeError
  | TypeError
  | IndexError
  | KeyError
  | ValueError string

definition ebind :: "error + 'a \<Rightarrow> ('a \<Rightarrow> error + 'b) \<Rightarrow> error + 'b" where
  "ebind m f = (case m of Inl e \<Rightarrow> Inl e | Inr v \<Rightarrow> f v)"

section \<open>Text normalisation\<close>

abbreviation nl :: char where "nl \<equiv> CHR 0x0A"
abbreviation tab :: char where "tab \<equiv> CHR 0x09"
abbreviation nbsp :: char where "nbsp \<equiv> CHR 0xA0"

text \<open>\<^verbatim>\<open>strip_html\<close>, lines 19-27. \<^verbatim>\<open>BeautifulSoup(raw_str, "html.parser").get_text(separator="\n")\<close>
  is a call into a library; what it returns is the parameter \<open>get_text\<close>. The only caller
  passes a \<^verbatim>\<open>str\<close>, for which \<^verbatim>\<open>str(raw)\<close> is \<^verbatim>\<open>raw\<close>.\<close>

definition strip_html :: "(string \<Rightarrow> string) \<Rightarrow> string \<Rightarrow> string" where
  "strip_html get_text raw =
     (if raw = [] then []
      else if CHR ''<'' \<notin> set raw \<and> CHR ''&'' \<notin> set raw then raw
      else get_text raw)"

text \<open>The character class \<^verbatim>\<open>[ \t]\<close> of the regular expression of line 37.\<close>

definition is_blank :: "char \<Rightarrow> bool" where
  "is_blank c = (c = CHR '' '' \<or> c = tab)"

text \<open>\<^verbatim>\<open>re.sub(r"[ \t]*\n[ \t]*", "\n", text)\<close>: scanning from the left, the pattern matches
  at a position exactly when the longest run of blanks there is followed by a newline (a
  shorter run is followed by a blank); the match then takes the longest run of blanks after
  the newline, and the scan goes on behind it. Where the pattern does not match, the
  character is kept.\<close>

function re_sub_nl :: "string \<Rightarrow> string" where
  "re_sub_nl [] = []"
| "re_sub_nl (c # cs) =
     (case dropWhile is_blank (c # cs) of
        [] \<Rightarrow> c # re_sub_nl cs
      | d # ds \<Rightarrow> if d = nl then nl # re_sub_nl (dropWhile is_blank ds)
                 else c # re_sub_nl cs)"
  by pat_completeness auto
termination
proof (relation "measure length", goal_cases)
  case 1
  show ?case by simp
next
  case (2 c cs)
  show ?case by simp
next
  case (3 c cs d ds)
  have "length (dropWhile is_blank ds) \<le> length ds"
    by (rule length_dropWhile_le)
  moreover have "length (d # ds) \<le> length (c # cs)"
    unfolding 3(1)[symmetric] by (rule length_dropWhile_le)
  ultimately show ?case by simp
next
  case (4 c cs d ds)
  show ?case by simp
qed

text \<open>\<^verbatim>\<open>text.strip("\n")\<close>, line 39.\<close>

definition strip_nl :: "string \<Rightarrow> string" where
  "strip_nl s = rev (dropWhile (\<lambda>c. c = nl) (rev (dropWhile (\<lambda>c. c = nl) s)))"

text \<open>\<^verbatim>\<open>text.replace("\xa0", " ")\<close>, line 34.\<close>

definition replace_nbsp :: "string \<Rightarrow> string" where
  "replace_nbsp s = map (\<lambda>c. if c = nbsp then CHR '' '' else c) s"

text \<open>\<^verbatim>\<open>normalize_text\<close>, lines 30-39, on a \<^verbatim>\<open>str\<close>.\<close>

definition normalize_str :: "(string \<Rightarrow> string) \<Rightarrow> string \<Rightarrow> string" where
  "normalize_str get_text text =
     strip_nl (re_sub_nl (strip_html get_text (replace_nbsp text)))"

text \<open>\<^verbatim>\<open>normalize_text\<close> on any value: \<^verbatim>\<open>None\<close> gives the empty string, and a value that is
  not a string has no \<^verbatim>\<open>replace\<close> method.\<close>

fun normalize_text :: "(string \<Rightarrow> string) \<Rightarrow> json \<Rightarrow> error + string" where
  "normalize_text get_text JNull = Inr []"
| "normalize_text get_text (JStr s) = Inr (normalize_str get_text s)"
| "normalize_text get_text v = Inl AttributeError"

text \<open>The stand-in for \<open>get_text\<close> in the concrete evaluations below: on a text of words
  and \<^verbatim>\<open>&amp;\<close> entities the HTML parser decodes each entity to \<^verbatim>\<open>&\<close> and keeps the
  rest.\<close>

fun unescape_amp :: "string \<Rightarrow> string" where
  "unescape_amp [] = []"
| "unescape_amp (c # cs) =
     (if c = CHR ''&'' \<and> take 4 cs = ''amp;'' then CHR ''&'' # unescape_amp (drop 4 cs)
      else c # unescape_amp cs)"

text \<open>The markup indicators of line 24.\<close>

definition markup_free :: "string \<Rightarrow> bool" where
  "markup_free s = (CHR ''<'' \<notin> set s \<and> CHR ''&'' \<notin> set s)"

text \<open>No blank stands next to a newline: the texts that line 37 leaves as they are.\<close>

fun nl_clean :: "string \<Rightarrow> bool" where
  "nl_clean (a # b # cs) =
     (\<not> (is_blank a \<and> b = nl) \<and> \<not> (a = nl \<and> is_blank b) \<and> nl_clean (b # cs))"
| "nl_clean cs = True"

section \<open>Truthiness, dictionaries, iteration\<close>

fun truthy :: "json \<Rightarrow> bool" where
  "truthy JNull = False"
| "truthy (JBool b) = b"
| "truthy (JInt i) = (i \<noteq> 0)"
| "truthy (JFloat f) = (f \<noteq> Finite 0)"
| "truthy (JStr s) = (s \<noteq> [])"
| "truthy (JList xs) = (xs \<noteq> [])"
| "truthy (JObj d) = (d \<noteq> [])"

text \<open>\<^verbatim>\<open>d.get(k)\<close> on a dictionary: the value, or \<^verbatim>\<open>None\<close>.\<close>

definition lookup :: "(string \<times> json) list \<Rightarrow> string \<Rightarrow> json" where
  "lookup d k = (case map_of d k of None \<Rightarrow> JNull | Some v \<Rightarrow> v)"

text \<open>\<^verbatim>\<open>x.get(k)\<close> on any value: only a dictionary has the method.\<close>

fun dict_get :: "json \<Rightarrow> string \<Rightarrow> error + json" where
  "dict_get (JObj d) k = Inr (lookup d k)"
| "dict_get v k = Inl AttributeError"

text \<open>\<^verbatim>\<open>x.get(k, default)\<close>.\<close>

fun dict_get_default :: "json \<Rightarrow> string \<Rightarrow> json \<Rightarrow> error + json" where
  "dict_get_default (JObj d) k dflt = Inr (case map_of d k of None \<Rightarrow> dflt | Some v \<Rightarrow> v)"
| "dict_get_default v k dflt = Inl AttributeError"

text \<open>\<^verbatim>\<open>x.get(k1) or x.get(k2)\<close>.\<close>

definition get_or :: "json \<Rightarrow> string \<Rightarrow> string \<Rightarrow> error + json" where
  "get_or x k1 k2 = ebind (dict_get x k1) (\<lambda>a. if truthy a then Inr a else dict_get x k2)"

text \<open>\<^verbatim>\<open>x[k]\<close> with a string key: a dictionary without the key raises \<^verbatim>\<open>KeyError\<close>, a
  string or a list takes integer indices only, the other values have no subscript.\<close>

fun py_index :: "json \<Rightarrow> string \<Rightarrow> error + json" where
  "py_index (JObj d) k = (case map_of d k of None \<Rightarrow> Inl KeyError | Some v \<Rightarrow> Inr v)"
| "py_index v k = Inl TypeError"

text \<open>\<^verbatim>\<open>x[k] = v\<close> with a string key.\<close>

fun dict_set :: "json \<Rightarrow> string \<Rightarrow> json \<Rightarrow> error + json" where
  "dict_set (JObj d) k v = Inr (JObj (AList.update k v d))"
| "dict_set x k v = Inl TypeError"

fun is_substring :: "string \<Rightarrow> string \<Rightarrow> bool" where
  "is_substring k [] = (k = [])"
| "is_substring k (c # cs) = (take (length k) (c # cs) = k \<or> is_substring k cs)"

text \<open>\<^verbatim>\<open>k in x\<close> for a string \<open>k\<close>: a key of a dictionary, a substring of a string, an
  element of a list; a number or a boolean is not iterable.\<close>

fun py_in :: "string \<Rightarrow> json \<Rightarrow> error + bool" where
  "py_in k (JObj d) = Inr (map_of d k \<noteq> None)"
| "py_in k (JStr s) = Inr (is_substring k s)"
| "py_in k (JList xs) = Inr (List.member xs (JStr k))"
| "py_in k v = Inl TypeError"

text \<open>\<^verbatim>\<open>for item in x\<close>: the elements of a list, the keys of a dictionary, the characters of
  a string.\<close>

fun py_iter :: "json \<Rightarrow> error + json list" where
  "py_iter (JList xs) = Inr xs"
| "py_iter (JObj d) = Inr (map (\<lambda>kv. JStr (fst kv)) d)"
| "py_iter (JStr s) = Inr (map (\<lambda>c. JStr [c]) s)"
| "py_iter v = Inl TypeError"

text \<open>\<^verbatim>\<open>len(x)\<close>.\<close>

fun py_len :: "json \<Rightarrow> error + int" where
  "py_len (JList xs) = Inr (int (length xs))"
| "py_len (JObj d) = Inr (int (length d))"
| "py_len (JStr s) = Inr (int (length s))"
| "py_len v = Inl TypeError"

text \<open>The whitespace of \<^verbatim>\<open>str.strip()\<close> among the code points below 256.\<close>

definition is_space :: "char \<Rightarrow> bool" where
  "is_space c =
     (let n = (of_char c :: nat)
      in (9 \<le> n \<and> n \<le> 13) \<or> (28 \<le> n \<and> n \<le> 32) \<or> n = 133 \<or> n = 160)"

text \<open>\<^verbatim>\<open>isinstance(v, str) and v.strip()\<close>.\<close>

fun nonblank_str :: "json \<Rightarrow> bool" where
  "nonblank_str (JStr s) = (\<not> list_all is_space s)"
| "nonblank_str v = False"

section \<open>Metadata extraction\<close>

text \<open>Membership in the set \<^verbatim>\<open>seen\<close> of \<^verbatim>\<open>dedupe_preserve\<close> goes by hash and equality:
  a list or a dictionary cannot be hashed; booleans, integers and floats are equal when
  their values are; a string is equal to the same string only.\<close>

fun hashable :: "json \<Rightarrow> bool" where
  "hashable (JList xs) = False"
| "hashable (JObj d) = False"
| "hashable v = True"

fun num_of :: "json \<Rightarrow> pyfloat option" where
  "num_of (JBool b) = Some (Finite (if b then 1 else 0))"
| "num_of (JInt i) = Some (Finite (of_int i))"
| "num_of (JFloat f) = Some f"
| "num_of v = None"

definition py_eq :: "json \<Rightarrow> json \<Rightarrow> bool" where
  "py_eq a b =
     (case num_of a of
        Some x \<Rightarrow> (case num_of b of Some y \<Rightarrow> x = y | None \<Rightarrow> False)
      | None \<Rightarrow> (case num_of b of Some y \<Rightarrow> False | None \<Rightarrow> a = b))"

text \<open>\<^verbatim>\<open>dedupe_preserve\<close>, lines 42-51. The argument is an iterable; for the tags it is a
  generator whose elements are computed, and may raise, when the loop asks for them. So the
  sequence is a list of results, and an \<open>Inl\<close> in it is raised when the loop reaches it.\<close>

fun dedupe_loop :: "(error + json) list \<Rightarrow> json list \<Rightarrow> json list \<Rightarrow> error + json list" where
  "dedupe_loop [] seen ordered = Inr ordered"
| "dedupe_loop (Inl e # seq) seen ordered = Inl e"
| "dedupe_loop (Inr item # seq) seen ordered =
     (if \<not> truthy item then dedupe_loop seq seen ordered
      else if \<not> hashable item then Inl TypeError
      else if list_ex (py_eq item) seen then dedupe_loop seq seen ordered
      else dedupe_loop seq (item # seen) (ordered @ [item]))"

definition dedupe_preserve :: "(error + json) list \<Rightarrow> error + json list" where
  "dedupe_preserve seq = dedupe_loop seq [] []"

text \<open>\<^verbatim>\<open>collect_names\<close>, lines 80-88: the inner loop over the four label keys stops at the
  first truthy value.\<close>

definition label_keys :: "string list" where
  "label_keys = [''name'', ''text'', ''description'', ''slug'']"

fun first_label :: "json \<Rightarrow> string list \<Rightarrow> error + json option" where
  "first_label item [] = Inr None"
| "first_label item (key # keys) =
     ebind (dict_get item key)
       (\<lambda>val. if truthy val then Inr (Some val) else first_label item keys)"

fun collect_loop :: "json list \<Rightarrow> json list \<Rightarrow> error + json list" where
  "collect_loop [] names = Inr names"
| "collect_loop (item # items) names =
     ebind (first_label item label_keys)
       (\<lambda>r. collect_loop items (case r of None \<Rightarrow> names | Some val \<Rightarrow> names @ [val]))"

definition collect_names :: "json \<Rightarrow> error + json list" where
  "collect_names items = ebind (py_iter items) (\<lambda>xs. collect_loop xs [])"

text \<open>\<^verbatim>\<open>build_url\<close>, lines 91-100. \<^verbatim>\<open>startswith\<close> is a method of strings only. The f-string
  of line 99 formats a website that is a string as itself; how Python prints any other
  value is the parameter \<open>str_of\<close>.\<close>

definition format_value :: "(json \<Rightarrow> string) \<Rightarrow> json \<Rightarrow> string" where
  "format_value str_of v = (case v of JStr s \<Rightarrow> s | _ \<Rightarrow> str_of v)"

definition build_url :: "(json \<Rightarrow> string) \<Rightarrow> json \<Rightarrow> error + json" where
  "build_url str_of doc =
     ebind (get_or doc ''canonical_url'' ''website_url'') (\<lambda>candidate.
     ebind (get_or doc ''canonical_website'' ''website'') (\<lambda>website.
       if \<not> truthy candidate then Inr JNull
       else (case candidate of
               JStr c \<Rightarrow>
                 if take 4 c = ''http'' then Inr candidate
                 else if truthy website
                   then Inr (JStr (''https://www.'' @ format_value str_of website @ ''.com'' @ c))
                 else Inr candidate
             | _ \<Rightarrow> Inl AttributeError)))"

text \<open>\<^verbatim>\<open>tag.lstrip("@")\<close>, line 109.\<close>

fun lstrip_at :: "json \<Rightarrow> error + json" where
  "lstrip_at (JStr s) = Inr (JStr (dropWhile (\<lambda>c. c = CHR ''@'') s))"
| "lstrip_at v = Inl AttributeError"

text \<open>\<^verbatim>\<open>collect_names(taxonomy.get(k) or [])\<close>, lines 106-110.\<close>

definition taxonomy_names :: "json \<Rightarrow> string \<Rightarrow> error + json list" where
  "taxonomy_names taxonomy k =
     ebind (dict_get taxonomy k) (\<lambda>v. collect_names (if truthy v then v else JList []))"

text \<open>The loop of lines 115-118 over the promo keys, leaving at the first truthy url.\<close>

definition thumb_keys :: "string list" where
  "thumb_keys = [''basic'', ''lead_art'', ''square1x1'']"

fun probe_thumb :: "json \<Rightarrow> string list \<Rightarrow> error + json" where
  "probe_thumb promo [] = Inr JNull"
| "probe_thumb promo (key # keys) =
     ebind (py_in key promo) (\<lambda>present.
       if \<not> present then probe_thumb promo keys
       else ebind (py_index promo key) (\<lambda>item.
            ebind (dict_get item ''url'') (\<lambda>u.
              if truthy u then Inr u else probe_thumb promo keys)))"

text \<open>An entry that is stored only under a condition.\<close>

definition entry_if :: "bool \<Rightarrow> string \<Rightarrow> json \<Rightarrow> (string \<times> json) list" where
  "entry_if c k v = (if c then [(k, v)] else [])"

text \<open>\<^verbatim>\<open>extract_metadata\<close>, lines 103-151; the dictionary \<^verbatim>\<open>metadata\<close> in the order in
  which its keys are stored.\<close>

definition extract_metadata :: "(json \<Rightarrow> string) \<Rightarrow> json \<Rightarrow> error + (string \<times> json) list" where
  "extract_metadata str_of doc =
     ebind (dict_get doc ''taxonomy'') (\<lambda>t.
     let taxonomy = (if truthy t then t else JObj []) in
     ebind (ebind (taxonomy_names taxonomy ''sections'')
              (\<lambda>ns. dedupe_preserve (map Inr ns))) (\<lambda>sections.
     ebind (ebind (taxonomy_names taxonomy ''categories'')
              (\<lambda>ns. dedupe_preserve (map Inr ns))) (\<lambda>categories.
     ebind (ebind (taxonomy_names taxonomy ''tags'')
              (\<lambda>ns. dedupe_preserve (map lstrip_at ns))) (\<lambda>tags.
     ebind (dict_get doc ''promo_items'') (\<lambda>p.
     ebind (probe_thumb (if truthy p then p else JObj []) thumb_keys) (\<lambda>thumb.
     ebind (dict_get doc ''headlines'') (\<lambda>h.
     ebind (dict_get (if truthy h then h else JObj []) ''basic'') (\<lambda>title.
     ebind (build_url str_of doc) (\<lambda>url.
     ebind (dict_get doc ''_id'') (\<lambda>external_id.
     ebind (dict_get doc ''publish_date'') (\<lambda>publish_date.
     ebind (get_or doc ''display_date'' ''publish_date'') (\<lambda>display_date.
     ebind (dict_get doc ''first_publish_date'') (\<lambda>first_publish.
     ebind (get_or doc ''canonical_website'' ''website'') (\<lambda>website.
       Inr (entry_if (nonblank_str title) ''title'' title
            @ [(''url'', url), (''external_id'', external_id)]
            @ entry_if (nonblank_str publish_date) ''publish_date'' publish_date
            @ entry_if (nonblank_str display_date) ''datetime'' display_date
            @ entry_if (nonblank_str first_publish) ''first_publish_date'' first_publish
            @ entry_if (nonblank_str website) ''website'' website
            @ [(''sections'', JList sections), (''categories'', JList categories),
               (''tags'', JList tags)]
            @ entry_if (nonblank_str thumb) ''thumb'' thumb)))))))))))))))"

section \<open>Text extraction and transformation\<close>

text \<open>\<^verbatim>\<open>extract_text\<close>, lines 54-77, one function for each of its three loops.\<close>

fun text_segments :: "json list \<Rightarrow> json list \<Rightarrow> error + json list" where
  "text_segments [] segments = Inr segments"
| "text_segments (elem # elems) segments =
     ebind (dict_get elem ''type'') (\<lambda>etype.
       if etype = JStr ''text''
       then ebind (dict_get_default elem ''content'' (JStr []))
              (\<lambda>content. text_segments elems (segments @ [content]))
       else text_segments elems segments)"

fun clean_segments :: "(string \<Rightarrow> string) \<Rightarrow> json list \<Rightarrow> string list \<Rightarrow> error + string list" where
  "clean_segments get_text [] cleaned = Inr cleaned"
| "clean_segments get_text (seg # segs) cleaned =
     ebind (normalize_text get_text seg) (\<lambda>normalized.
       clean_segments get_text segs (if normalized \<noteq> [] then cleaned @ [normalized] else cleaned))"

fun combine :: "string list \<Rightarrow> string \<Rightarrow> string" where
  "combine [] combined = combined"
| "combine (part # parts) combined =
     combine parts (if combined = [] then part else combined @ '' '' @ part)"

definition extract_text :: "(string \<Rightarrow> string) \<Rightarrow> json \<Rightarrow> error + string" where
  "extract_text get_text content_elements =
     (if \<not> truthy content_elements then Inr []
      else ebind (py_iter content_elements) (\<lambda>elems.
           ebind (text_segments elems []) (\<lambda>segments.
           ebind (clean_segments get_text segments []) (\<lambda>cleaned.
             Inr (combine cleaned [])))))"

text \<open>\<^verbatim>\<open>transform_document\<close>, lines 154-157.\<close>

definition transform_document :: "(string \<Rightarrow> string) \<Rightarrow> (json \<Rightarrow> string) \<Rightarrow> json \<Rightarrow> error + json" where
  "transform_document get_text str_of doc =
     ebind (dict_get doc ''content_elements'') (\<lambda>content_elements.
     ebind (extract_text get_text content_elements) (\<lambda>text.
     ebind (extract_metadata str_of doc) (\<lambda>metadata.
       Inr (JObj [(''text'', JStr text), (''metadata'', JObj metadata)]))))"

section \<open>Validation\<close>

text \<open>The loop of lines 164-166 over the required keys.\<close>

fun check_required :: "json \<Rightarrow> string list \<Rightarrow> error + unit" where
  "check_required md [] = Inr ()"
| "check_required md (key # keys) =
     ebind (dict_get md key) (\<lambda>v.
       if \<not> truthy v then Inl (ValueError (''Missing required metadata.'' @ key))
       else check_required md keys)"

text \<open>\<^verbatim>\<open>ts_val.endswith("Z")\<close> and \<^verbatim>\<open>ts_val.replace("Z", "+00:00")\<close>, lines 173 and 176.\<close>

definition ends_with_Z :: "string \<Rightarrow> bool" where
  "ends_with_Z s = (s \<noteq> [] \<and> last s = CHR ''Z'')"

definition replace_Z :: "string \<Rightarrow> string" where
  "replace_Z s = concat (map (\<lambda>c. if c = CHR ''Z'' then ''+00:00'' else [c]) s)"

text \<open>One timestamp value, lines 169-178. \<^verbatim>\<open>datetime.fromisoformat\<close> belongs to the standard
  library; whether it parses a string is the parameter \<open>fromisoformat_ok\<close>.\<close>

definition check_timestamp :: "(string \<Rightarrow> bool) \<Rightarrow> string \<Rightarrow> json \<Rightarrow> error + unit" where
  "check_timestamp fromisoformat_ok ts_key ts_val =
     (case ts_val of
        JNull \<Rightarrow> Inr ()
      | JStr s \<Rightarrow>
          if \<not> ends_with_Z s
            then Inl (ValueError (''metadata.'' @ ts_key @ '' must end with Z (UTC)''))
          else if \<not> fromisoformat_ok (replace_Z s)
            then Inl (ValueError (''metadata.'' @ ts_key
                   @ '' must match ISO 8601 UTC format YYYY-MM-DDTHH:MM:SS[.fff]Z''))
          else Inr ()
      | _ \<Rightarrow> Inl (ValueError (''metadata.'' @ ts_key
                @ '' must be string in ISO 8601 UTC format YYYY-MM-DDTHH:MM:SS[.fff]Z'')))"

fun check_timestamps :: "(string \<Rightarrow> bool) \<Rightarrow> json \<Rightarrow> string list \<Rightarrow> error + unit" where
  "check_timestamps fromisoformat_ok md [] = Inr ()"
| "check_timestamps fromisoformat_ok md (ts_key # ts_keys) =
     ebind (dict_get md ts_key) (\<lambda>ts_val.
     ebind (check_timestamp fromisoformat_ok ts_key ts_val) (\<lambda>_.
       check_timestamps fromisoformat_ok md ts_keys))"

definition ts_keys :: "string list" where
  "ts_keys = [''publish_date'', ''datetime'', ''first_publish_date'']"

text \<open>Lines 179-182: the check runs only for a truthy dimension and a document that has the
  key.\<close>

definition check_embedding :: "json \<Rightarrow> int option \<Rightarrow> error + unit" where
  "check_embedding doc embedding_dim =
     (case embedding_dim of
        None \<Rightarrow> Inr ()
      | Some n \<Rightarrow>
          if n = 0 then Inr ()
          else ebind (py_in ''embedding'' doc) (\<lambda>present.
            if \<not> present then Inr ()
            else ebind (py_index doc ''embedding'') (\<lambda>emb.
              case emb of
                JList xs \<Rightarrow>
                  if int (length xs) \<noteq> n then Inl (ValueError ''Embedding dimension mismatch'')
                  else Inr ()
              | _ \<Rightarrow> Inl (ValueError ''Embedding dimension mismatch''))))"

text \<open>\<^verbatim>\<open>validate_output\<close>, lines 160-182. It returns nothing and changes nothing: the result
  is the unit value or the exception.\<close>

definition validate_output :: "(string \<Rightarrow> bool) \<Rightarrow> json \<Rightarrow> int option \<Rightarrow> error + unit" where
  "validate_output fromisoformat_ok doc embedding_dim =
     ebind (dict_get doc ''text'') (\<lambda>text.
       if \<not> nonblank_str text then Inl (ValueError ''Invalid text field'')
       else ebind (dict_get_default doc ''metadata'' (JObj [])) (\<lambda>md.
            ebind (check_required md [''external_id'', ''url'']) (\<lambda>_.
            ebind (check_timestamps fromisoformat_ok md ts_keys) (\<lambda>_.
              check_embedding doc embedding_dim))))"

section \<open>Embedding providers\<close>

text \<open>An item of \<^verbatim>\<open>response.data\<close>: its \<^verbatim>\<open>index\<close> and its \<^verbatim>\<open>embedding\<close>.\<close>

datatype resp_item = Item (item_index: int) (item_embedding: json)

text \<open>\<^verbatim>\<open>xs[i] = v\<close> on a list: a negative index counts from the end, an index out of range
  raises \<^verbatim>\<open>IndexError\<close>.\<close>

definition py_setitem :: "'a list \<Rightarrow> int \<Rightarrow> 'a \<Rightarrow> error + 'a list" where
  "py_setitem xs i v =
     (let n = int (length xs); j = (if i < 0 then i + n else i)
      in if 0 \<le> j \<and> j < n then Inr (xs[nat j := v]) else Inl IndexError)"

text \<open>Lines 207-209: a list of \<^verbatim>\<open>None\<close> as long as the response, then one assignment for
  each item.\<close>

fun place_items :: "resp_item list \<Rightarrow> json list \<Rightarrow> error + json list" where
  "place_items [] slots = Inr slots"
| "place_items (item # items) slots =
     ebind (py_setitem slots (item_index item) (item_embedding item)) (place_items items)"

definition batch_embeddings :: "resp_item list \<Rightarrow> error + json list" where
  "batch_embeddings data = place_items data (replicate (length data) JNull)"

text \<open>\<^verbatim>\<open>range(0, n, step)\<close>, line 203.\<close>

definition range_starts :: "nat \<Rightarrow> int \<Rightarrow> error + nat list" where
  "range_starts n step =
     (if step = 0 then Inl (ValueError ''range() arg 3 must not be zero'')
      else if step < 0 then Inr []
      else Inr (map (\<lambda>k. k * nat step) [0 ..< (n + nat step - 1) div nat step]))"

text \<open>The loop of lines 203-210. \<^verbatim>\<open>client.embeddings.create\<close> is the remote service: the
  parameter \<open>create\<close> gives, for the number of the request and the batch sent, the
  \<^verbatim>\<open>response.data\<close> received or the exception raised.\<close>

fun embed_batches ::
  "(nat \<Rightarrow> json list \<Rightarrow> error + resp_item list) \<Rightarrow> json list \<Rightarrow> nat \<Rightarrow> nat list \<Rightarrow> nat
     \<Rightarrow> json list \<Rightarrow> error + json list" where
  "embed_batches create texts batch_size [] k embeddings = Inr embeddings"
| "embed_batches create texts batch_size (start # starts) k embeddings =
     ebind (create k (take batch_size (drop start texts))) (\<lambda>data.
     ebind (batch_embeddings data) (\<lambda>slots.
       embed_batches create texts batch_size starts (Suc k) (embeddings @ slots)))"

fun emap :: "('a \<Rightarrow> error + 'b) \<Rightarrow> 'a list \<Rightarrow> error + 'b list" where
  "emap f [] = Inr []"
| "emap f (x # xs) = ebind (f x) (\<lambda>y. ebind (emap f xs) (\<lambda>ys. Inr (y # ys)))"

text \<open>The loops of lines 190-192 and 215-217 over \<^verbatim>\<open>zip(docs, embeddings)\<close>: each document
  gets its embedding and is validated; the loop ends with the shorter list, and the documents
  behind it stay as they are.\<close>

fun attach_embeddings ::
  "(string \<Rightarrow> bool) \<Rightarrow> int option \<Rightarrow> json list \<Rightarrow> json list \<Rightarrow> error + json list" where
  "attach_embeddings fromisoformat_ok dim' (doc # docs) (emb # embs) =
     ebind (dict_set doc ''embedding'' emb) (\<lambda>doc'.
     ebind (validate_output fromisoformat_ok doc' dim') (\<lambda>_.
     ebind (attach_embeddings fromisoformat_ok dim' docs embs) (\<lambda>rest.
       Inr (doc' # rest))))"
| "attach_embeddings fromisoformat_ok dim' docs embs = Inr docs"

text \<open>\<^verbatim>\<open>add_embeddings_openai\<close>, lines 196-218: the dimension returned and the documents as
  the function leaves them. \<open>api_key\<close> is the environment variable.\<close>

definition add_embeddings_openai ::
  "(string \<Rightarrow> bool) \<Rightarrow> string option \<Rightarrow> (nat \<Rightarrow> json list \<Rightarrow> error + resp_item list)
     \<Rightarrow> json list \<Rightarrow> int \<Rightarrow> error + (int \<times> json list)" where
  "add_embeddings_openai fromisoformat_ok api_key create docs batch_size =
     (if api_key = None \<or> api_key = Some [] then Inl (ValueError ''OPENAI_API_KEY not set'')
      else ebind (emap (\<lambda>doc. py_index doc ''text'') docs) (\<lambda>texts.
           ebind (range_starts (length texts) batch_size) (\<lambda>starts.
           ebind (embed_batches create texts (nat batch_size) starts 0 []) (\<lambda>embeddings.
             case embeddings of
               [] \<Rightarrow> Inl (ValueError ''No embeddings returned from OpenAI'')
             | e # es \<Rightarrow>
                 ebind (py_len e) (\<lambda>dim'.
                 ebind (attach_embeddings fromisoformat_ok (Some dim') docs embeddings) (\<lambda>docs'.
                   Inr (dim', docs')))))))"

text \<open>\<^verbatim>\<open>add_embeddings_sentence_transformers\<close>, lines 185-193. The model is a library: \<open>dim'\<close>
  is what \<^verbatim>\<open>get_sentence_embedding_dimension\<close> returns and \<open>encode\<close> gives the rows of
  \<^verbatim>\<open>model.encode(texts)\<close>, each as \<^verbatim>\<open>tolist()\<close> returns it.\<close>

definition add_embeddings_sentence_transformers ::
  "(string \<Rightarrow> bool) \<Rightarrow> int option \<Rightarrow> (json list \<Rightarrow> json list) \<Rightarrow> json list
     \<Rightarrow> error + (int option \<times> json list)" where
  "add_embeddings_sentence_transformers fromisoformat_ok dim' encode docs =
     ebind (emap (\<lambda>doc. py_index doc ''text'') docs) (\<lambda>texts.
     ebind (attach_embeddings fromisoformat_ok dim' docs (encode texts)) (\<lambda>docs'.
       Inr (dim', docs')))"

section \<open>The pipeline\<close>

text \<open>What the pipeline takes from outside itself: the libraries and the environment.\<close>

record externals =
  ext_get_text :: "string \<Rightarrow> string"
  ext_str_of :: "json \<Rightarrow> string"
  ext_fromisoformat_ok :: "string \<Rightarrow> bool"
  ext_api_key :: "string option"
  ext_create :: "nat \<Rightarrow> json list \<Rightarrow> error + resp_item list"
  ext_st_dim :: "int option"
  ext_st_encode :: "json list \<Rightarrow> json list"

text \<open>\<^verbatim>\<open>raw[:limit]\<close>, line 265.\<close>

definition py_prefix :: "'a list \<Rightarrow> int \<Rightarrow> 'a list" where
  "py_prefix xs n = (if 0 \<le> n then take (nat n) xs else take (length xs - nat (- n)) xs)"

text \<open>Lines 264-265: \<^verbatim>\<open>if limit: raw = raw[:limit]\<close>, where \<^verbatim>\<open>None\<close> and 0 are falsy.\<close>

definition apply_limit :: "'a list \<Rightarrow> int option \<Rightarrow> 'a list" where
  "apply_limit raw limit =
     (case limit of
        None \<Rightarrow> raw
      | Some n \<Rightarrow> if n \<noteq> 0 then py_prefix raw n else raw)"

text \<open>Lines 270-271 for one document.\<close>

definition transform_validated :: "externals \<Rightarrow> json \<Rightarrow> error + json" where
  "transform_validated E doc =
     ebind (transform_document (ext_get_text E) (ext_str_of E) doc) (\<lambda>transformed_doc.
     ebind (validate_output (ext_fromisoformat_ok E) transformed_doc None) (\<lambda>_.
       Inr transformed_doc))"

text \<open>The loop of lines 267-274. The handler of line 274 calls \<^verbatim>\<open>doc.get("_id")\<close> for its
  warning; on a document that is not a dictionary this call raises outside the
  \<^verbatim>\<open>try\<close>.\<close>

fun transform_all :: "externals \<Rightarrow> json list \<Rightarrow> error + json list" where
  "transform_all E [] = Inr []"
| "transform_all E (doc # raw) =
     (case transform_validated E doc of
        Inr transformed_doc \<Rightarrow>
          ebind (transform_all E raw) (\<lambda>rest. Inr (transformed_doc # rest))
      | Inl exc \<Rightarrow> ebind (dict_get doc ''_id'') (\<lambda>_. transform_all E raw))"

text \<open>\<^verbatim>\<open>run_pipeline\<close>, lines 253-292, from the parsed input to the list of documents written
  to the output file; the upload that follows the write is not part of the model.\<close>

definition run_pipeline ::
  "externals \<Rightarrow> json list \<Rightarrow> int option \<Rightarrow> bool \<Rightarrow> string \<Rightarrow> error + json list" where
  "run_pipeline E raw limit skip_embeddings provider =
     (let raw' = apply_limit raw limit
      in ebind (transform_all E raw') (\<lambda>transformed.
           if \<not> skip_embeddings then
             (if provider = ''openai''
              then ebind (add_embeddings_openai (ext_fromisoformat_ok E) (ext_api_key E) (ext_create E)
                            transformed 100)
                     (\<lambda>r. Inr (snd r))
              else ebind (add_embeddings_sentence_transformers (ext_fromisoformat_ok E) (ext_st_dim E)
                            (ext_st_encode E) transformed)
                     (\<lambda>r. Inr (snd r)))
           else Inr transformed))"

text \<open>In the words of the specification: a document is dropped when its transformation or its
  validation fails; a surviving document has a record, the one the first stage makes of it.\<close>

definition dropped :: "externals \<Rightarrow> json \<Rightarrow> bool" where
  "dropped E doc = (case transform_validated E doc of Inl exc \<Rightarrow> True | Inr t \<Rightarrow> False)"

definition record_of :: "externals \<Rightarrow> json \<Rightarrow> json" where
  "record_of E doc = (case transform_validated E doc of Inl exc \<Rightarrow> JNull | Inr t \<Rightarrow> t)"

text \<open>A document of the output without the embedding attached to it.\<close>

fun drop_embedding :: "json \<Rightarrow> json" where
  "drop_embedding (JObj d) = JObj (AList.delete ''embedding'' d)"
| "drop_embedding v = v"

section \<open>Collaborators for the concrete evaluations\<close>

text \<open>The theorems below hold for every behaviour of the libraries and of the remote
  service. Where a statement is evaluated on a concrete input, these stand in for them: a
  parser that accepts the timestamps of the form \<^verbatim>\<open>YYYY-MM-DDTHH:MM:SS[.fff]+HH:MM\<close>, a
  service that answers the request \<open>k\<close> with one vector per text of the batch, in reversed
  order, the vector of index \<open>i\<close> being the vector \<open>10 * k + i\<close>, and a local model of
  dimension 2.\<close>

definition is_digit :: "char \<Rightarrow> bool" where
  "is_digit c = (48 \<le> (of_char c :: nat) \<and> (of_char c :: nat) \<le> 57)"

fun matches_shape :: "string \<Rightarrow> string \<Rightarrow> bool" where
  "matches_shape [] [] = True"
| "matches_shape (p # ps) (c # cs) =
     ((if p = CHR ''d'' then is_digit c else p = c) \<and> matches_shape ps cs)"
| "matches_shape ps cs = False"

definition sample_fromisoformat :: "string \<Rightarrow> bool" where
  "sample_fromisoformat s =
     (matches_shape ''dddd-dd-ddTdd:dd:dd+dd:dd'' s
      \<or> matches_shape ''dddd-dd-ddTdd:dd:dd.ddd+dd:dd'' s)"

definition sample_str_of :: "json \<Rightarrow> string" where
  "sample_str_of v = ''?''"

definition sample_vector :: "nat \<Rightarrow> json" where
  "sample_vector i = JList [JFloat (Finite (of_nat i)), JFloat (Finite 1)]"

definition sample_create :: "nat \<Rightarrow> json list \<Rightarrow> error + resp_item list" where
  "sample_create k batch =
     Inr (rev (map (\<lambda>i. Item (int i) (sample_vector (10 * k + i))) [0 ..< length batch]))"

definition sample_encode :: "json list \<Rightarrow> json list" where
  "sample_encode texts = map sample_vector [0 ..< length texts]"

definition sample_env :: externals where
  "sample_env =
     \<lparr> ext_get_text = unescape_amp, ext_str_of = sample_str_of,
       ext_fromisoformat_ok = sample_fromisoformat, ext_api_key = Some ''key'',
       ext_create = sample_create, ext_st_dim = Some 2, ext_st_encode = sample_encode \<rparr>"

text \<open>A raw document with all fields, one without \<^verbatim>\<open>_id\<close>, and the record the first one is
  transformed to.\<close>

definition sample_doc :: json where
  "sample_doc =
     JObj [(''_id'', JStr ''a1''), (''canonical_url'', JStr ''/a/b''),
           (''website'', JStr ''example''),
           (''headlines'', JObj [(''basic'', JStr ''Budget'')]),
           (''publish_date'', JStr ''2024-01-01T10:00:00.123Z''),
           (''taxonomy'',
              JObj [(''sections'', JList [JObj [(''name'', JStr ''News'')],
                                          JObj [(''name'', JNull), (''slug'', JStr ''News'')]]),
                    (''tags'', JList [JObj [(''text'', JStr ''@tax'')],
                                      JObj [(''description'', JStr ''tax'')]])]),
           (''promo_items'', JObj [(''lead_art'', JObj [(''url'', JStr ''/img.png'')])]),
           (''content_elements'',
              JList [JObj [(''type'', JStr ''text''), (''content'', JStr ''Hello'')],
                     JObj [(''type'', JStr ''image'')],
                     JObj [(''type'', JStr ''text''), (''content'', JStr ''world'')]])]"

definition sample_doc_no_id :: json where
  "sample_doc_no_id =
     JObj [(''canonical_url'', JStr ''https://example.com/c''),
           (''content_elements'',
              JList [JObj [(''type'', JStr ''text''), (''content'', JStr ''Text'')]])]"

definition sample_fields :: "(string \<times> json) list" where
  "sample_fields =
     [(''text'', JStr ''Hello world''),
      (''metadata'',
         JObj [(''title'', JStr ''Budget''),
               (''url'', JStr ''https://www.example.com/a/b''),
               (''external_id'', JStr ''a1''),
               (''publish_date'', JStr ''2024-01-01T10:00:00.123Z''),
               (''datetime'', JStr ''2024-01-01T10:00:00.123Z''),
               (''website'', JStr ''example''),
               (''sections'', JList [JStr ''News'']), (''categories'', JList []),
               (''tags'', JList [JStr ''tax'']),
               (''thumb'', JStr ''/img.png'')])]"

definition sample_transformed :: json where
  "sample_transformed = JObj sample_fields"

text \<open>The same record with the vector \<open>i\<close> attached.\<close>

definition sample_embedded :: "nat \<Rightarrow> json" where
  "sample_embedded i = JObj (sample_fields @ [(''embedding'', sample_vector i)])"

section \<open>The specification's words\<close>

text \<open>The value chosen among two keys: the first if it is truthy, else the second.\<close>

definition chosen :: "(string \<times> json) list \<Rightarrow> string \<Rightarrow> string \<Rightarrow> json" where
  "chosen d k1 k2 = (if truthy (lookup d k1) then lookup d k1 else lookup d k2)"

text \<open>A timestamp field that is present and is not a string, does not end in \<^verbatim>\<open>Z\<close> or does
  not parse.\<close>

definition bad_timestamp :: "(string \<Rightarrow> bool) \<Rightarrow> json \<Rightarrow> bool" where
  "bad_timestamp parses v =
     (case v of
        JNull \<Rightarrow> False
      | JStr s \<Rightarrow> \<not> (ends_with_Z s \<and> parses (replace_Z s))
      | _ \<Rightarrow> True)"

text \<open>The metadata of a document that is a dictionary: the empty dictionary when the key is
  missing.\<close>

definition metadata_of :: "(string \<times> json) list \<Rightarrow> (string \<times> json) list" where
  "metadata_of d = (case map_of d ''metadata'' of Some (JObj m) \<Rightarrow> m | _ \<Rightarrow> [])"

text \<open>The failure conditions of section 4.4 without the embedding.\<close>

definition invalid_document :: "(string \<Rightarrow> bool) \<Rightarrow> (string \<times> json) list \<Rightarrow> bool" where
  "invalid_document parses d =
     (\<not> nonblank_str (lookup d ''text'')
      \<or> \<not> truthy (lookup (metadata_of d) ''external_id'')
      \<or> \<not> truthy (lookup (metadata_of d) ''url'')
      \<or> list_ex (\<lambda>k. bad_timestamp parses (lookup (metadata_of d) k)) ts_keys)"




text \<open>A list of the given length.\<close>

definition list_of_length :: "json \<Rightarrow> int \<Rightarrow> bool" where
  "list_of_length v n = (case v of JList xs \<Rightarrow> int (length xs) = n | _ \<Rightarrow> False)"



text \<open>The shapes the extractor expects: a label that is a string or falsy; a taxonomy item
  that is a dictionary of such labels; a taxonomy list that is falsy or a list of such
  items; a taxonomy that is falsy or a dictionary of such lists; promo items that are falsy
  or a dictionary whose probed values are dictionaries; headlines that are falsy or a
  dictionary; a url candidate that is falsy or a string.\<close>

fun is_str :: "json \<Rightarrow> bool" where
  "is_str (JStr s) = True"
| "is_str v = False"

fun is_dict :: "json \<Rightarrow> bool" where
  "is_dict (JObj d) = True"
| "is_dict v = False"

definition label_ok :: "json \<Rightarrow> bool" where
  "label_ok v = (is_str v \<or> \<not> truthy v)"

definition item_ok :: "json \<Rightarrow> bool" where
  "item_ok item =
     (case item of JObj it \<Rightarrow> list_all (\<lambda>k. label_ok (lookup it k)) label_keys | _ \<Rightarrow> False)"

definition names_ok :: "json \<Rightarrow> bool" where
  "names_ok v = (case v of JList items \<Rightarrow> list_all item_ok items | _ \<Rightarrow> \<not> truthy v)"

definition taxonomy_ok :: "json \<Rightarrow> bool" where
  "taxonomy_ok t =
     (case t of
        JObj td \<Rightarrow> names_ok (lookup td ''sections'') \<and> names_ok (lookup td ''categories'')
                    \<and> names_ok (lookup td ''tags'')
      | _ \<Rightarrow> \<not> truthy t)"

definition promo_ok :: "json \<Rightarrow> bool" where
  "promo_ok p =
     (case p of
        JObj pd \<Rightarrow>
          list_all (\<lambda>k. case map_of pd k of None \<Rightarrow> True | Some v \<Rightarrow> is_dict v) thumb_keys
      | _ \<Rightarrow> \<not> truthy p)"

definition well_shaped :: "json \<Rightarrow> bool" where
  "well_shaped doc =
     (case doc of
        JObj d \<Rightarrow>
          taxonomy_ok (lookup d ''taxonomy'') \<and> promo_ok (lookup d ''promo_items'')
          \<and> (is_dict (lookup d ''headlines'') \<or> \<not> truthy (lookup d ''headlines''))
          \<and> (is_str (chosen d ''canonical_url'' ''website_url'')
               \<or> \<not> truthy (chosen d ''canonical_url'' ''website_url''))
      | _ \<Rightarrow> False)"

section \<open>Properties of the text normaliser\<close>

lemma nl_not_blank [simp]: "\<not> is_blank nl"
  by (simp add: is_blank_def)

lemma nl_clean_Cons:
  "nl_clean (a # s) =
     ((case s of [] \<Rightarrow> True
       | b # _ \<Rightarrow> \<not> (is_blank a \<and> b = nl) \<and> \<not> (a = nl \<and> is_blank b)) \<and> nl_clean s)"
  by (cases s) auto

lemma nl_clean_ConsI:
  assumes "nl_clean t"
    and "\<And>x xs. t = x # xs \<Longrightarrow> \<not> (is_blank a \<and> x = nl) \<and> \<not> (a = nl \<and> is_blank x)"
  shows "nl_clean (a # t)"
  using assms by (cases t) auto

lemma blank_run_no_nl:
  "nl_clean (c # cs) \<Longrightarrow> is_blank c \<Longrightarrow> dropWhile is_blank (c # cs) = d # ds \<Longrightarrow> d \<noteq> nl"
proof (induction cs arbitrary: c)
  case Nil
  then show ?case by simp
next
  case (Cons a cs)
  show ?case
  proof (cases "is_blank a")
    case True
    with Cons.prems have "nl_clean (a # cs)" "dropWhile is_blank (a # cs) = d # ds"
      by auto
    with Cons.IH True show ?thesis by blast
  next
    case False
    with Cons.prems show ?thesis by auto
  qed
qed

text \<open>A text without a blank next to a newline has only matches that are a single newline,
  and the substitution puts the same newline back.\<close>

lemma re_sub_nl_fix: "nl_clean s \<Longrightarrow> re_sub_nl s = s"
proof (induction s rule: re_sub_nl.induct)
  case 1
  show ?case by simp
next
  case (2 c cs)
  have tl_ok: "nl_clean cs" using "2.prems" by (cases cs) auto
  show ?case
  proof (cases "dropWhile is_blank (c # cs)")
    case Nil
    with 2 tl_ok show ?thesis by simp
  next
    case (Cons d ds)
    show ?thesis
    proof (cases "d = nl")
      case True
      have nb: "\<not> is_blank c"
        using blank_run_no_nl[OF "2.prems" _ Cons] True by blast
      then have eq: "c = nl" "ds = cs" using Cons True by auto
      have run: "dropWhile is_blank cs = cs" using "2.prems" eq by (cases cs) auto
      have "re_sub_nl (dropWhile is_blank ds) = dropWhile is_blank ds"
        using "2.IH"(2)[OF Cons True] tl_ok eq run by simp
      then show ?thesis using Cons True eq run by simp
    next
      case False
      with 2 tl_ok Cons show ?thesis by simp
    qed
  qed
qed

lemma re_sub_nl_hd_nl:
  "re_sub_nl s = nl # xs \<Longrightarrow> \<exists>ds. dropWhile is_blank s = nl # ds"
  by (cases s) (auto split: list.splits if_splits)

lemma re_sub_nl_hd_other:
  "re_sub_nl s = x # xs \<Longrightarrow> x \<noteq> nl \<Longrightarrow> \<exists>cs. s = x # cs"
  by (cases s) (auto split: list.splits if_splits)

lemma dropWhile_blank_hd: "dropWhile is_blank s = d # ds \<Longrightarrow> \<not> is_blank d"
  using hd_dropWhile[of is_blank s] by auto

text \<open>What the substitution returns has no blank next to a newline.\<close>

lemma re_sub_nl_clean: "nl_clean (re_sub_nl s)"
proof (induction s rule: re_sub_nl.induct)
  case 1
  show ?case by simp
next
  case (2 c cs)
  show ?case
  proof (cases "dropWhile is_blank (c # cs)")
    case Nil
    then have c: "is_blank c" and cs: "dropWhile is_blank cs = []"
      by (auto split: if_splits)
    have "nl_clean (c # re_sub_nl cs)"
    proof (rule nl_clean_ConsI)
      show "nl_clean (re_sub_nl cs)" by (rule "2.IH"(1)[OF Nil])
    next
      fix x xs
      assume t: "re_sub_nl cs = x # xs"
      have "x \<noteq> nl" using re_sub_nl_hd_nl[of cs xs] t cs by auto
      moreover have "c \<noteq> nl" using c by auto
      ultimately show "\<not> (is_blank c \<and> x = nl) \<and> \<not> (c = nl \<and> is_blank x)" by simp
    qed
    then show ?thesis using Nil by simp
  next
    case (Cons d ds)
    show ?thesis
    proof (cases "d = nl")
      case True
      have "nl_clean (nl # re_sub_nl (dropWhile is_blank ds))"
      proof (rule nl_clean_ConsI)
        show "nl_clean (re_sub_nl (dropWhile is_blank ds))"
          by (rule "2.IH"(2)[OF Cons True])
      next
        fix x xs
        assume t: "re_sub_nl (dropWhile is_blank ds) = x # xs"
        have "\<not> is_blank x"
        proof (cases "x = nl")
          case True
          then show ?thesis by simp
        next
          case False
          from re_sub_nl_hd_other[OF t False]
          obtain cs' where "dropWhile is_blank ds = x # cs'" by blast
          then show ?thesis by (rule dropWhile_blank_hd)
        qed
        then show "\<not> (is_blank nl \<and> x = nl) \<and> \<not> (nl = nl \<and> is_blank x)" by simp
      qed
      then show ?thesis using Cons True by simp
    next
      case False
      have "nl_clean (c # re_sub_nl cs)"
      proof (rule nl_clean_ConsI)
        show "nl_clean (re_sub_nl cs)" by (rule "2.IH"(3)[OF Cons False])
      next
        fix x xs
        assume t: "re_sub_nl cs = x # xs"
        have a: "\<not> (is_blank c \<and> x = nl)"
        proof
          assume h: "is_blank c \<and> x = nl"
          then obtain ds' where "dropWhile is_blank cs = nl # ds'"
            using re_sub_nl_hd_nl t by blast
          with h Cons False show False by simp
        qed
        have b: "c \<noteq> nl" using Cons False by auto
        from a b show "\<not> (is_blank c \<and> x = nl) \<and> \<not> (c = nl \<and> is_blank x)" by simp
      qed
      then show ?thesis using Cons False by simp
    qed
  qed
qed

lemma nl_clean_dropWhile: "nl_clean s \<Longrightarrow> nl_clean (dropWhile P s)"
  by (induction s) (auto simp: nl_clean_Cons)

lemma nl_clean_snoc:
  "nl_clean (s @ [a]) =
     (nl_clean s \<and>
      (s = [] \<or> (\<not> (is_blank (last s) \<and> a = nl) \<and> \<not> (last s = nl \<and> is_blank a))))"
  by (induction s rule: nl_clean.induct) auto

lemma nl_clean_rev: "nl_clean (rev s) = nl_clean s"
proof (induction s)
  case Nil
  show ?case by simp
next
  case (Cons a s)
  show ?case
  proof (cases s)
    case Nil
    then show ?thesis by simp
  next
    case (Cons b t)
    have "nl_clean (rev (a # s)) =
            (nl_clean (rev s) \<and> \<not> (is_blank (hd s) \<and> a = nl) \<and> \<not> (hd s = nl \<and> is_blank a))"
      using Cons by (simp only: rev.simps nl_clean_snoc last_rev) simp
    also have "\<dots> = nl_clean (a # s)" using Cons.IH Cons by auto
    finally show ?thesis .
  qed
qed

lemma nl_clean_strip_nl: "nl_clean s \<Longrightarrow> nl_clean (strip_nl s)"
  by (simp add: strip_nl_def nl_clean_rev nl_clean_dropWhile)

lemma dropWhile_unchanged: "(s \<noteq> [] \<Longrightarrow> \<not> P (hd s)) \<Longrightarrow> dropWhile P s = s"
  by (cases s) auto

lemma strip_nl_id:
  assumes "s \<noteq> [] \<Longrightarrow> hd s \<noteq> nl \<and> last s \<noteq> nl"
  shows "strip_nl s = s"
proof -
  have 1: "dropWhile (\<lambda>c. c = nl) s = s"
    using assms by (intro dropWhile_unchanged) simp
  have 2: "dropWhile (\<lambda>c. c = nl) (rev s) = rev s"
    using assms by (intro dropWhile_unchanged) (simp add: hd_rev)
  show ?thesis by (simp add: strip_nl_def 1 2)
qed

lemma last_dropWhile_ne: "dropWhile P xs \<noteq> [] \<Longrightarrow> last (dropWhile P xs) = last xs"
  by (induction xs) (auto split: if_splits)

lemma strip_nl_ends:
  assumes ne: "strip_nl s \<noteq> []"
  shows "hd (strip_nl s) \<noteq> nl \<and> last (strip_nl s) \<noteq> nl"
proof -
  define a where "a = dropWhile (\<lambda>c. c = nl) s"
  define b where "b = dropWhile (\<lambda>c. c = nl) (rev a)"
  have sb: "strip_nl s = rev b" by (simp add: strip_nl_def a_def b_def)
  have b: "b \<noteq> []" using ne sb by simp
  have hb: "hd b \<noteq> nl"
    using hd_dropWhile[of "\<lambda>c. c = nl" "rev a"] b unfolding b_def by blast
  have a: "a \<noteq> []" using b unfolding b_def by auto
  have ha: "hd a \<noteq> nl"
    using hd_dropWhile[of "\<lambda>c. c = nl" s] a unfolding a_def by blast
  have "last b = last (rev a)" using b unfolding b_def by (rule last_dropWhile_ne)
  then have lb: "last b = hd a" using a by (simp add: last_rev)
  show ?thesis using hb ha lb b by (simp add: sb hd_rev last_rev)
qed

lemma strip_nl_set: "set (strip_nl s) \<subseteq> set s"
  by (auto simp: strip_nl_def dest!: set_dropWhileD)

lemma re_sub_nl_set: "set (re_sub_nl s) \<subseteq> insert nl (set s)"
proof (induction s rule: re_sub_nl.induct)
  case 1
  show ?case by simp
next
  case (2 c cs)
  show ?case
  proof (cases "dropWhile is_blank (c # cs)")
    case Nil
    with "2.IH"(1) show ?thesis by auto
  next
    case (Cons d ds)
    have sub: "set ds \<subseteq> set (c # cs)"
      using Cons set_dropWhileD[of _ is_blank "c # cs"] by auto
    show ?thesis
    proof (cases "d = nl")
      case True
      have "set (dropWhile is_blank ds) \<subseteq> set ds" using set_dropWhileD by fastforce
      with "2.IH"(2)[OF Cons True] sub Cons True show ?thesis by auto
    next
      case False
      with "2.IH"(3)[OF Cons False] Cons show ?thesis by auto
    qed
  qed
qed

lemma replace_nbsp_id: "nbsp \<notin> set s \<Longrightarrow> replace_nbsp s = s"
  by (induction s) (auto simp: replace_nbsp_def)

lemma strip_html_id: "markup_free s \<Longrightarrow> strip_html g s = s"
  by (simp add: strip_html_def markup_free_def)

lemma normalize_str_fix:
  assumes "markup_free s" "nbsp \<notin> set s" "nl_clean s"
    and "s \<noteq> [] \<Longrightarrow> hd s \<noteq> nl \<and> last s \<noteq> nl"
  shows "normalize_str g s = s"
  using assms
  by (simp add: normalize_str_def replace_nbsp_id strip_html_id re_sub_nl_fix strip_nl_id)

lemma normalize_str_markup_free:
  assumes "markup_free t"
  shows "normalize_str g t = strip_nl (re_sub_nl (replace_nbsp t))"
proof -
  have "markup_free (replace_nbsp t)"
    using assms by (auto simp: markup_free_def replace_nbsp_def)
  then show ?thesis by (simp add: normalize_str_def strip_html_id)
qed

lemma normalize_str_chars:
  assumes "markup_free t"
  shows "markup_free (normalize_str g t) \<and> nbsp \<notin> set (normalize_str g t)"
proof -
  have "set (normalize_str g t) \<subseteq> insert nl (set (replace_nbsp t))"
    unfolding normalize_str_markup_free[OF assms] using strip_nl_set re_sub_nl_set by blast
  moreover have "CHR ''<'' \<notin> set (replace_nbsp t)" "CHR ''&'' \<notin> set (replace_nbsp t)"
    "nbsp \<notin> set (replace_nbsp t)"
    using assms by (auto simp: markup_free_def replace_nbsp_def)
  ultimately show ?thesis unfolding markup_free_def by auto
qed

lemma normalize_str_idem:
  assumes "markup_free (normalize_str g t)" and "nbsp \<notin> set (normalize_str g t)"
  shows "normalize_str g (normalize_str g t) = normalize_str g t"
proof (rule normalize_str_fix)
  show "markup_free (normalize_str g t)" by fact
  show "nbsp \<notin> set (normalize_str g t)" by fact
  show "nl_clean (normalize_str g t)"
    unfolding normalize_str_def by (intro nl_clean_strip_nl re_sub_nl_clean)
  show "hd (normalize_str g t) \<noteq> nl \<and> last (normalize_str g t) \<noteq> nl"
    if "normalize_str g t \<noteq> []"
    using that unfolding normalize_str_def by (rule strip_nl_ends)
qed

text \<open>
  C7, as stated: a string without markup indicators comes back from \<open>normalize\<close> unchanged.
  This fails: the text \<^verbatim>\<open>"abc\n"\<close> has neither \<^verbatim>\<open><\<close> nor \<^verbatim>\<open>&\<close>, and
  \<^verbatim>\<open>normalize_text\<close> returns \<^verbatim>\<open>"abc"\<close>, since line 39 trims the newline.
\<close>

theorem normalize_markup_free_changed:
  "markup_free (''abc'' @ [nl])
   \<and> normalize_str unescape_amp (''abc'' @ [nl]) = ''abc''
   \<and> normalize_str unescape_amp (''abc'' @ [nl]) \<noteq> ''abc'' @ [nl]"
  by (simp add: markup_free_def normalize_str_def replace_nbsp_def strip_html_def strip_nl_def
      is_blank_def)

text \<open>
  C7, amended: for a string without markup indicators, \<^verbatim>\<open>strip_html\<close> returns its argument
  as it is, whatever the HTML parser does, and \<open>normalize\<close> returns the string with its
  non-breaking spaces replaced, the blanks around its newlines removed and its leading and
  trailing newlines trimmed. The string comes back unchanged when it has, in addition, no
  non-breaking space, no blank next to a newline and no newline at either end.
\<close>

theorem normalize_markup_free:
  "markup_free t \<Longrightarrow>
     strip_html g t = t
     \<and> normalize_str g t = strip_nl (re_sub_nl (replace_nbsp t))
     \<and> (nbsp \<notin> set t \<and> nl_clean t \<and> (t = [] \<or> (hd t \<noteq> nl \<and> last t \<noteq> nl))
          \<longrightarrow> normalize_str g t = t)"
  using strip_html_id[of t g] normalize_str_markup_free[of t g] normalize_str_fix[of t g]
  by blast

theorem normalize_markup_free_witness:
  "markup_free ''a b''
   \<and> strip_html unescape_amp ''a b'' = ''a b''
   \<and> normalize_str unescape_amp ''a b'' = ''a b''"
proof -
  have m: "markup_free ''a b''" by (simp add: markup_free_def)
  have c: "nbsp \<notin> set ''a b'' \<and> nl_clean ''a b''
           \<and> (''a b'' = [] \<or> (hd ''a b'' \<noteq> nl \<and> last ''a b'' \<noteq> nl))"
    by (simp add: is_blank_def)
  from normalize_markup_free[OF m, of unescape_amp] m c show ?thesis by blast
qed

text \<open>
  C8, as stated: \<open>normalize (normalize t) = normalize t\<close> for every text. This fails on
  escaped entities: the HTML parser decodes \<^verbatim>\<open>&amp;amp;\<close> to \<^verbatim>\<open>&amp;\<close>, which the second
  call decodes again to \<^verbatim>\<open>&\<close>.
\<close>

theorem normalize_not_idempotent:
  "normalize_str unescape_amp ''&amp;amp;'' = ''&amp;''
   \<and> normalize_str unescape_amp (normalize_str unescape_amp ''&amp;amp;'') = ''&''
   \<and> normalize_str unescape_amp (normalize_str unescape_amp ''&amp;amp;'')
       \<noteq> normalize_str unescape_amp ''&amp;amp;''"
  by (simp add: normalize_str_def replace_nbsp_def strip_html_def strip_nl_def is_blank_def)

text \<open>
  C8, amended: \<open>normalize (normalize t) = normalize t\<close> for every text \<open>t\<close> whose normal
  form has no markup indicator and no non-breaking space, whatever the HTML parser does;
  this includes every text \<open>t\<close> that has no markup indicator itself.
\<close>

theorem normalize_idempotent:
  "(markup_free (normalize_str g t) \<and> nbsp \<notin> set (normalize_str g t)
      \<longrightarrow> normalize_str g (normalize_str g t) = normalize_str g t)
   \<and> (markup_free t \<longrightarrow> normalize_str g (normalize_str g t) = normalize_str g t)"
  using normalize_str_idem[of g t] normalize_str_chars[of t g] by blast

theorem normalize_idempotent_witness:
  "markup_free (''a '' @ [nl, nbsp] @ ''b'' @ [nl])
   \<and> normalize_str unescape_amp (''a '' @ [nl, nbsp] @ ''b'' @ [nl]) = ''a'' @ [nl] @ ''b''
   \<and> normalize_str unescape_amp (normalize_str unescape_amp (''a '' @ [nl, nbsp] @ ''b'' @ [nl]))
       = normalize_str unescape_amp (''a '' @ [nl, nbsp] @ ''b'' @ [nl])"
proof -
  have m: "markup_free (''a '' @ [nl, nbsp] @ ''b'' @ [nl])"
    by (simp add: markup_free_def)
  have v: "normalize_str unescape_amp (''a '' @ [nl, nbsp] @ ''b'' @ [nl]) = ''a'' @ [nl] @ ''b''"
    by (simp add: normalize_str_def replace_nbsp_def strip_html_def strip_nl_def is_blank_def)
  from normalize_idempotent[of unescape_amp "''a '' @ [nl, nbsp] @ ''b'' @ [nl]"] m
  have "normalize_str unescape_amp (normalize_str unescape_amp (''a '' @ [nl, nbsp] @ ''b'' @ [nl]))
          = normalize_str unescape_amp (''a '' @ [nl, nbsp] @ ''b'' @ [nl])"
    by blast
  with m v show ?thesis by blast
qed


section \<open>Properties of the metadata extractor\<close>

lemma ebind_Inr_iff: "ebind m f = Inr y \<longleftrightarrow> (\<exists>v. m = Inr v \<and> f v = Inr y)"
  by (cases m) (simp_all add: ebind_def)

lemma ebind_Inr [simp]: "ebind (Inr v) f = f v"
  by (simp add: ebind_def)

lemma ebind_Inl [simp]: "ebind (Inl e) f = Inl e"
  by (simp add: ebind_def)

lemma get_or_dict [simp]: "get_or (JObj d) k1 k2 = Inr (chosen d k1 k2)"
  by (simp add: get_or_def chosen_def)

text \<open>
  C9: with a url candidate (\<^verbatim>\<open>canonical_url\<close>, else \<^verbatim>\<open>website_url\<close>) that is a non-empty
  string, \<^verbatim>\<open>build_url\<close> returns the candidate itself when it starts with \<^verbatim>\<open>http\<close>; else
  \<^verbatim>\<open>https://www.{website}.com{candidate}\<close> when a website identifier
  (\<^verbatim>\<open>canonical_website\<close>, else \<^verbatim>\<open>website\<close>) is present; else the candidate itself.
\<close>

theorem build_url_cases:
  "chosen d ''canonical_url'' ''website_url'' = JStr c \<Longrightarrow> c \<noteq> [] \<Longrightarrow>
     (take 4 c = ''http'' \<longrightarrow> build_url s (JObj d) = Inr (JStr c))
     \<and> (take 4 c \<noteq> ''http'' \<and> chosen d ''canonical_website'' ''website'' = JStr w \<and> w \<noteq> []
          \<longrightarrow> build_url s (JObj d) = Inr (JStr (''https://www.'' @ w @ ''.com'' @ c)))
     \<and> (take 4 c \<noteq> ''http'' \<and> \<not> truthy (chosen d ''canonical_website'' ''website'')
          \<longrightarrow> build_url s (JObj d) = Inr (JStr c))"
  by (simp add: build_url_def format_value_def)

theorem build_url_cases_witness:
  "build_url sample_str_of
     (JObj [(''canonical_url'', JStr ''/a/b''), (''website'', JStr ''example'')])
     = Inr (JStr ''https://www.example.com/a/b'')
   \<and> build_url sample_str_of
     (JObj [(''website_url'', JStr ''https://x.org/a''), (''website'', JStr ''example'')])
     = Inr (JStr ''https://x.org/a'')
   \<and> build_url sample_str_of (JObj [(''canonical_url'', JStr ''/a/b'')]) = Inr (JStr ''/a/b'')"
proof -
  let ?d1 = "[(''canonical_url'', JStr ''/a/b''), (''website'', JStr ''example'')]"
  let ?d2 = "[(''website_url'', JStr ''https://x.org/a''), (''website'', JStr ''example'')]"
  let ?d3 = "[(''canonical_url'', JStr ''/a/b'')]"
  have c1: "chosen ?d1 ''canonical_url'' ''website_url'' = JStr ''/a/b''"
    and w1: "chosen ?d1 ''canonical_website'' ''website'' = JStr ''example''"
    and c2: "chosen ?d2 ''canonical_url'' ''website_url'' = JStr ''https://x.org/a''"
    and c3: "chosen ?d3 ''canonical_url'' ''website_url'' = JStr ''/a/b''"
    and w3: "\<not> truthy (chosen ?d3 ''canonical_website'' ''website'')"
    by (simp_all add: chosen_def lookup_def)
  have "build_url sample_str_of (JObj ?d1) = Inr (JStr ''https://www.example.com/a/b'')"
    using build_url_cases[OF c1, where w = "''example''" and s = sample_str_of] w1 by simp
  moreover have "build_url sample_str_of (JObj ?d2) = Inr (JStr ''https://x.org/a'')"
    using build_url_cases[OF c2, where s = sample_str_of] by simp
  moreover have "build_url sample_str_of (JObj ?d3) = Inr (JStr ''/a/b'')"
    using build_url_cases[OF c3, where s = sample_str_of] w3 by simp
  ultimately show ?thesis by blast
qed

lemma extract_metadata_shape:
  assumes "extract_metadata s doc = Inr md"
  shows "\<exists>pre post url ext.
           md = pre @ [(''url'', url), (''external_id'', ext)] @ post
           \<and> (pre = [] \<or> (\<exists>t. pre = [(''title'', t)]))
           \<and> build_url s doc = Inr url \<and> dict_get doc ''_id'' = Inr ext"
proof -
  from assms obtain title url ext rest where
    md: "md = entry_if (nonblank_str title) ''title'' title
              @ [(''url'', url), (''external_id'', ext)] @ rest"
    and u: "build_url s doc = Inr url" and e: "dict_get doc ''_id'' = Inr ext"
    unfolding extract_metadata_def Let_def ebind_Inr_iff by fastforce
  have "entry_if (nonblank_str title) ''title'' title = []
        \<or> (\<exists>t. entry_if (nonblank_str title) ''title'' title = [(''title'', t)])"
    by (simp add: entry_if_def)
  with md u e show ?thesis by blast
qed

text \<open>
  C4, as stated: a raw document with neither \<^verbatim>\<open>canonical_url\<close> nor \<^verbatim>\<open>website_url\<close> gets a
  Metadata without the key \<^verbatim>\<open>url\<close>, and one without \<^verbatim>\<open>_id\<close> a Metadata without the key
  \<^verbatim>\<open>external_id\<close>. This fails: lines 125 and 126 store both keys in every case, and for the
  empty document both are there, with the value \<^verbatim>\<open>None\<close>.
\<close>

theorem extract_metadata_empty_doc:
  "extract_metadata sample_str_of (JObj [])
     = Inr [(''url'', JNull), (''external_id'', JNull), (''sections'', JList []),
            (''categories'', JList []), (''tags'', JList [])]"
  by (simp add: extract_metadata_def taxonomy_names_def collect_names_def dedupe_preserve_def
      thumb_keys_def build_url_def entry_if_def lookup_def chosen_def)

text \<open>
  C4, amended: for a raw document with neither \<^verbatim>\<open>canonical_url\<close> nor \<^verbatim>\<open>website_url\<close>, the
  Metadata returned by \<^verbatim>\<open>extract_metadata\<close> has the key \<^verbatim>\<open>url\<close> with the value \<^verbatim>\<open>None\<close>,
  and for a document without \<^verbatim>\<open>_id\<close> it has the key \<^verbatim>\<open>external_id\<close> with the value
  \<^verbatim>\<open>None\<close>: both keys are always present, and it is their value that is null.
\<close>

theorem extract_metadata_unresolved:
  "extract_metadata s (JObj d) = Inr md \<Longrightarrow>
     map_of md ''url'' \<noteq> None \<and> map_of md ''external_id'' \<noteq> None
     \<and> (map_of d ''canonical_url'' = None \<and> map_of d ''website_url'' = None
          \<longrightarrow> map_of md ''url'' = Some JNull)
     \<and> (map_of d ''_id'' = None \<longrightarrow> map_of md ''external_id'' = Some JNull)"
proof -
  assume a: "extract_metadata s (JObj d) = Inr md"
  from extract_metadata_shape[OF a] obtain pre post url ext where
    md: "md = pre @ [(''url'', url), (''external_id'', ext)] @ post"
    and pre: "pre = [] \<or> (\<exists>t. pre = [(''title'', t)])"
    and u: "build_url s (JObj d) = Inr url" and e: "dict_get (JObj d) ''_id'' = Inr ext"
    by blast
  have mu: "map_of md ''url'' = Some url" and me: "map_of md ''external_id'' = Some ext"
    using pre md by auto
  have "url = JNull"
    if "map_of d ''canonical_url'' = None \<and> map_of d ''website_url'' = None"
    using u that by (simp add: build_url_def chosen_def lookup_def)
  moreover have "ext = JNull" if "map_of d ''_id'' = None"
    using e that by (simp add: lookup_def)
  ultimately show ?thesis using mu me by simp
qed

theorem extract_metadata_unresolved_witness:
  "map_of [(''url'', JNull), (''external_id'', JNull), (''sections'', JList []),
           (''categories'', JList []), (''tags'', JList [])] ''url'' = Some JNull
   \<and> map_of [(''url'', JNull), (''external_id'', JNull), (''sections'', JList []),
           (''categories'', JList []), (''tags'', JList [])] ''external_id'' = Some JNull"
proof -
  have e: "extract_metadata sample_str_of (JObj [])
     = Inr [(''url'', JNull), (''external_id'', JNull), (''sections'', JList []),
            (''categories'', JList []), (''tags'', JList [])]"
    by (simp add: extract_metadata_def taxonomy_names_def collect_names_def dedupe_preserve_def
      thumb_keys_def build_url_def entry_if_def lookup_def chosen_def)
  from extract_metadata_unresolved[OF e] show ?thesis by simp
qed


section \<open>Properties of the validator\<close>

lemma check_timestamp_cases:
  "(check_timestamp parses k v = Inr () \<longleftrightarrow> \<not> bad_timestamp parses v)
   \<and> (check_timestamp parses k v \<noteq> Inr () \<longrightarrow> (\<exists>msg. check_timestamp parses k v = Inl (ValueError msg)))"
  by (cases v) (simp_all add: check_timestamp_def bad_timestamp_def)

lemma check_timestamps_cases:
  "(check_timestamps parses (JObj m) ks = Inr ()
      \<longleftrightarrow> \<not> list_ex (\<lambda>k. bad_timestamp parses (lookup m k)) ks)
   \<and> (check_timestamps parses (JObj m) ks \<noteq> Inr ()
      \<longrightarrow> (\<exists>msg. check_timestamps parses (JObj m) ks = Inl (ValueError msg)))"
proof (induction ks)
  case Nil
  show ?case by simp
next
  case (Cons k ks)
  show ?case
  proof (cases "check_timestamp parses k (lookup m k)")
    case (Inl e)
    with check_timestamp_cases[of parses k "lookup m k"] show ?thesis by auto
  next
    case (Inr u)
    with check_timestamp_cases[of parses k "lookup m k"] Cons.IH show ?thesis by simp
  qed
qed

lemma check_required_cases:
  "check_required (JObj m) [''external_id'', ''url''] =
     (if \<not> truthy (lookup m ''external_id'')
        then Inl (ValueError ''Missing required metadata.external_id'')
      else if \<not> truthy (lookup m ''url'') then Inl (ValueError ''Missing required metadata.url'')
      else Inr ())"
  by simp

lemma metadata_get:
  "map_of d ''metadata'' = None \<or> (\<exists>m. map_of d ''metadata'' = Some (JObj m)) \<Longrightarrow>
     dict_get_default (JObj d) ''metadata'' (JObj []) = Inr (JObj (metadata_of d))"
  by (auto simp: metadata_of_def)

text \<open>
  C5: for a document that is a dictionary whose \<^verbatim>\<open>metadata\<close>, when present, is a dictionary,
  \<^verbatim>\<open>validate_output\<close> without a dimension raises \<^verbatim>\<open>ValueError\<close> exactly when the text is
  missing, not a string or blank, or \<^verbatim>\<open>external_id\<close> or \<^verbatim>\<open>url\<close> of the metadata is missing
  or falsy, or one of \<^verbatim>\<open>publish_date\<close>, \<^verbatim>\<open>datetime\<close>, \<^verbatim>\<open>first_publish_date\<close> is present (not
  \<^verbatim>\<open>None\<close>) and is not a string, does not end in \<^verbatim>\<open>Z\<close> or does not parse; otherwise it
  returns, and as a function it has no effect besides its result.
\<close>

theorem validate_output_exactly_when:
  "map_of d ''metadata'' = None \<or> (\<exists>m. map_of d ''metadata'' = Some (JObj m)) \<Longrightarrow>
     (validate_output parses (JObj d) None = Inr () \<longleftrightarrow> \<not> invalid_document parses d)
     \<and> ((\<exists>msg. validate_output parses (JObj d) None = Inl (ValueError msg))
          \<longleftrightarrow> invalid_document parses d)"
proof -
  assume md: "map_of d ''metadata'' = None \<or> (\<exists>m. map_of d ''metadata'' = Some (JObj m))"
  let ?m = "metadata_of d"
  have v: "validate_output parses (JObj d) None =
             (if \<not> nonblank_str (lookup d ''text'') then Inl (ValueError ''Invalid text field'')
              else if \<not> truthy (lookup ?m ''external_id'')
                then Inl (ValueError ''Missing required metadata.external_id'')
              else if \<not> truthy (lookup ?m ''url'')
                then Inl (ValueError ''Missing required metadata.url'')
              else check_timestamps parses (JObj ?m) ts_keys)"
    using metadata_get[OF md]
    by (simp add: validate_output_def check_embedding_def ebind_def split: sum.splits)
  show ?thesis
  proof (cases "check_timestamps parses (JObj ?m) ts_keys = Inr ()")
    case True
    with check_timestamps_cases[of parses ?m ts_keys] show ?thesis
      unfolding v invalid_document_def by auto
  next
    case False
    with check_timestamps_cases[of parses ?m ts_keys] show ?thesis
      unfolding v invalid_document_def by auto
  qed
qed

text \<open>The examples of the claim: a document without \<^verbatim>\<open>external_id\<close> and one with the
  timestamp \<^verbatim>\<open>2024-01-01 10:00:00\<close> are rejected, one with \<^verbatim>\<open>2024-01-01T10:00:00.123Z\<close>
  is accepted.\<close>

theorem validate_output_exactly_when_witness:
  "(\<exists>msg. validate_output sample_fromisoformat
       (JObj [(''text'', JStr ''Hello''), (''metadata'', JObj [(''url'', JStr ''https://x.org/a'')])])
       None = Inl (ValueError msg))
   \<and> (\<exists>msg. validate_output sample_fromisoformat
       (JObj [(''text'', JStr ''Hello''),
              (''metadata'', JObj [(''url'', JStr ''https://x.org/a''), (''external_id'', JStr ''a1''),
                                   (''publish_date'', JStr ''2024-01-01 10:00:00'')])])
       None = Inl (ValueError msg))
   \<and> validate_output sample_fromisoformat
       (JObj [(''text'', JStr ''Hello''),
              (''metadata'', JObj [(''url'', JStr ''https://x.org/a''), (''external_id'', JStr ''a1''),
                                   (''publish_date'', JStr ''2024-01-01T10:00:00.123Z'')])])
       None = Inr ()"
proof -
  let ?d1 = "[(''text'', JStr ''Hello''), (''metadata'', JObj [(''url'', JStr ''https://x.org/a'')])]"
  let ?d2 = "[(''text'', JStr ''Hello''),
              (''metadata'', JObj [(''url'', JStr ''https://x.org/a''), (''external_id'', JStr ''a1''),
                                   (''publish_date'', JStr ''2024-01-01 10:00:00'')])]"
  let ?d3 = "[(''text'', JStr ''Hello''),
              (''metadata'', JObj [(''url'', JStr ''https://x.org/a''), (''external_id'', JStr ''a1''),
                                   (''publish_date'', JStr ''2024-01-01T10:00:00.123Z'')])]"
  have m1: "map_of ?d1 ''metadata'' = None \<or> (\<exists>m. map_of ?d1 ''metadata'' = Some (JObj m))"
    and m2: "map_of ?d2 ''metadata'' = None \<or> (\<exists>m. map_of ?d2 ''metadata'' = Some (JObj m))"
    and m3: "map_of ?d3 ''metadata'' = None \<or> (\<exists>m. map_of ?d3 ''metadata'' = Some (JObj m))"
    by simp_all
  have i1: "invalid_document sample_fromisoformat ?d1"
    by (simp add: invalid_document_def metadata_of_def lookup_def)
  have i2: "invalid_document sample_fromisoformat ?d2"
    by (simp add: invalid_document_def metadata_of_def lookup_def ts_keys_def bad_timestamp_def
        ends_with_Z_def)
  have i3: "\<not> invalid_document sample_fromisoformat ?d3"
    by (simp add: invalid_document_def metadata_of_def lookup_def ts_keys_def bad_timestamp_def
        ends_with_Z_def replace_Z_def sample_fromisoformat_def is_digit_def is_space_def)
  from validate_output_exactly_when[OF m1, of sample_fromisoformat]
    validate_output_exactly_when[OF m2, of sample_fromisoformat]
    validate_output_exactly_when[OF m3, of sample_fromisoformat] i1 i2 i3
  show ?thesis by blast
qed

text \<open>The same examples for every behaviour of the parser: the first two are rejected
  whatever it accepts, the third is accepted when it parses
  \<^verbatim>\<open>2024-01-01T10:00:00.123+00:00\<close>.\<close>

lemma validate_output_examples:
  "validate_output parses
     (JObj [(''text'', JStr ''Hello''), (''metadata'', JObj [(''url'', JStr ''https://x.org/a'')])])
     None = Inl (ValueError ''Missing required metadata.external_id'')"
  "validate_output parses
     (JObj [(''text'', JStr ''Hello''),
            (''metadata'', JObj [(''url'', JStr ''https://x.org/a''), (''external_id'', JStr ''a1''),
                                 (''publish_date'', JStr ''2024-01-01 10:00:00'')])])
     None = Inl (ValueError ''metadata.publish_date must end with Z (UTC)'')"
  "parses ''2024-01-01T10:00:00.123+00:00'' \<Longrightarrow>
   validate_output parses
     (JObj [(''text'', JStr ''Hello''),
            (''metadata'', JObj [(''url'', JStr ''https://x.org/a''), (''external_id'', JStr ''a1''),
                                 (''publish_date'', JStr ''2024-01-01T10:00:00.123Z'')])])
     None = Inr ()"
  by (simp_all add: validate_output_def lookup_def ts_keys_def check_timestamp_def
      ends_with_Z_def replace_Z_def check_embedding_def is_space_def)

lemma validate_output_split:
  "validate_output parses doc e =
     ebind (validate_output parses doc None) (\<lambda>_. check_embedding doc e)"
  by (simp add: validate_output_def check_embedding_def ebind_def split: sum.splits)

lemma check_embedding_cases:
  "check_embedding (JObj d) (Some n) =
     (if n = 0 \<or> map_of d ''embedding'' = None
        \<or> (\<exists>e. map_of d ''embedding'' = Some e \<and> list_of_length e n)
      then Inr () else Inl (ValueError ''Embedding dimension mismatch''))"
proof (cases "map_of d ''embedding''")
  case None
  then show ?thesis by (simp add: check_embedding_def)
next
  case (Some e)
  then show ?thesis
    by (cases e) (simp_all add: check_embedding_def list_of_length_def)
qed

text \<open>
  C6, as stated: with a dimension supplied, a document that passes the other checks fails
  exactly when its embedding is not a fixed-length numeric sequence, the absent embedding
  included, or has another length. This fails: line 179 runs the check only when the key
  \<^verbatim>\<open>embedding\<close> is there, so the record of the sample document, which has none, passes with
  the dimension 3; and line 181 asks for a list only, so a list of three values that are not
  numbers passes too.
\<close>

theorem validate_output_without_embedding:
  "validate_output sample_fromisoformat sample_transformed (Some 3) = Inr ()
   \<and> validate_output sample_fromisoformat
       (JObj [(''text'', JStr ''Hello''),
              (''metadata'', JObj [(''url'', JStr ''https://x.org/a''), (''external_id'', JStr ''a1'')]),
              (''embedding'', JList [JStr ''x'', JNull, JBool True])])
       (Some 3) = Inr ()"
  by code_simp

text \<open>
  C6, amended: for a document that passes the text, required-key and timestamp checks and a
  dimension that is supplied, \<^verbatim>\<open>validate_output\<close> fails if and only if the dimension is not
  zero, the document has the key \<^verbatim>\<open>embedding\<close>, and its value is not a list or is a list of
  another length; the failure is the \<^verbatim>\<open>ValueError\<close> of line 182. A document without the key
  passes, and so does every document when the dimension is zero.
\<close>

theorem validate_output_embedding:
  "validate_output parses (JObj d) None = Inr () \<Longrightarrow>
     (validate_output parses (JObj d) (Some n) \<noteq> Inr ()
        \<longleftrightarrow> n \<noteq> 0 \<and> (\<exists>e. map_of d ''embedding'' = Some e \<and> \<not> list_of_length e n))
     \<and> (validate_output parses (JObj d) (Some n) = Inr ()
          \<or> validate_output parses (JObj d) (Some n) = Inl (ValueError ''Embedding dimension mismatch''))"
proof -
  assume a: "validate_output parses (JObj d) None = Inr ()"
  have "validate_output parses (JObj d) (Some n) = check_embedding (JObj d) (Some n)"
    using validate_output_split[of parses "JObj d" "Some n"] a by simp
  then show ?thesis unfolding check_embedding_cases by auto
qed

theorem validate_output_embedding_witness:
  "validate_output sample_fromisoformat
     (JObj [(''text'', JStr ''Hello''),
            (''metadata'', JObj [(''url'', JStr ''https://x.org/a''), (''external_id'', JStr ''a1'')]),
            (''embedding'', JList [JFloat (Finite 0), JFloat (Finite 1)])])
     (Some 3) = Inl (ValueError ''Embedding dimension mismatch'')
   \<and> validate_output sample_fromisoformat
     (JObj [(''text'', JStr ''Hello''),
            (''metadata'', JObj [(''url'', JStr ''https://x.org/a''), (''external_id'', JStr ''a1'')]),
            (''embedding'', JList [JFloat (Finite 0), JFloat (Finite 1)])])
     (Some 2) = Inr ()"
proof -
  let ?d = "[(''text'', JStr ''Hello''),
            (''metadata'', JObj [(''url'', JStr ''https://x.org/a''), (''external_id'', JStr ''a1'')]),
            (''embedding'', JList [JFloat (Finite 0), JFloat (Finite 1)])]"
  have a: "validate_output sample_fromisoformat (JObj ?d) None = Inr ()"
    by (simp add: validate_output_def lookup_def ts_keys_def check_timestamp_def
        check_embedding_def is_space_def)
  have e: "map_of ?d ''embedding'' = Some (JList [JFloat (Finite 0), JFloat (Finite 1)])"
    by simp
  have l3: "\<not> list_of_length (JList [JFloat (Finite 0), JFloat (Finite 1)]) 3"
    and l2: "list_of_length (JList [JFloat (Finite 0), JFloat (Finite 1)]) 2"
    by (simp_all add: list_of_length_def)
  from validate_output_embedding[OF a, of 3] e l3
  have "validate_output sample_fromisoformat (JObj ?d) (Some 3)
          = Inl (ValueError ''Embedding dimension mismatch'')"
    by auto
  moreover from validate_output_embedding[OF a, of 2] e l2
  have "validate_output sample_fromisoformat (JObj ?d) (Some 2) = Inr ()"
    by auto
  ultimately show ?thesis by blast
qed


section \<open>Properties of the remote embedding provider\<close>
















text \<open>The same run evaluated: the second batch, of one text, follows the first.\<close>

lemma sample_add_embeddings_openai:
  "add_embeddings_openai sample_fromisoformat (Some ''key'') sample_create
     [sample_transformed, sample_transformed, sample_transformed] 2
     = Inr (2, [sample_embedded 0, sample_embedded 1, sample_embedded 10])"
  by code_simp


section \<open>Properties of the pipeline\<close>

lemma transform_all_survivors:
  "transform_all E raw = Inr ts \<Longrightarrow>
     ts = map (record_of E) (filter (\<lambda>doc. \<not> dropped E doc) raw)"
proof (induction raw arbitrary: ts)
  case Nil
  then show ?case by simp
next
  case (Cons doc raw)
  show ?case
  proof (cases "transform_validated E doc")
    case (Inl exc)
    with Cons.prems have "transform_all E raw = Inr ts"
      by (simp add: ebind_Inr_iff)
    with Cons.IH Inl show ?thesis by (simp add: dropped_def)
  next
    case (Inr t)
    with Cons.prems obtain rest where "transform_all E raw = Inr rest" "ts = t # rest"
      by (auto simp: ebind_Inr_iff)
    with Cons.IH Inr show ?thesis by (simp add: dropped_def record_of_def)
  qed
qed

lemma transform_validated_shape:
  "transform_validated E doc = Inr t \<Longrightarrow>
     \<exists>text md. t = JObj [(''text'', JStr text), (''metadata'', JObj md)]"
  unfolding transform_validated_def transform_document_def ebind_Inr_iff by auto

lemma record_of_no_embedding:
  "\<not> dropped E doc \<Longrightarrow> \<exists>d. record_of E doc = JObj d \<and> map_of d ''embedding'' = None"
proof -
  assume "\<not> dropped E doc"
  then obtain t where t: "transform_validated E doc = Inr t"
    by (cases "transform_validated E doc") (simp_all add: dropped_def)
  from transform_validated_shape[OF t] t show ?thesis by (auto simp: record_of_def)
qed

lemma delete_absent: "map_of d k = None \<Longrightarrow> AList.delete k d = d"
  by (induction d) (auto split: if_splits)

lemma delete_update_absent:
  "map_of d k = None \<Longrightarrow> AList.delete k (AList.update k v d) = d"
  by (induction d) (auto split: if_splits)

text \<open>Attaching the embeddings changes no document but for the key \<^verbatim>\<open>embedding\<close>, and
  leaves every document at its place.\<close>

lemma attach_embeddings_order:
  assumes "attach_embeddings parses n docs embs = Inr docs'"
    and "\<forall>t\<in>set docs. \<exists>d. t = JObj d \<and> map_of d ''embedding'' = None"
  shows "map drop_embedding docs' = docs"
  using assms
proof (induction docs arbitrary: embs docs')
  case Nil
  then show ?case by (cases embs) simp_all
next
  case (Cons doc docs)
  from Cons.prems(2) obtain d where d: "doc = JObj d" "map_of d ''embedding'' = None"
    by auto
  have plain: "map drop_embedding (doc # docs) = doc # docs"
  proof -
    have "drop_embedding t = t" if "t \<in> set (doc # docs)" for t
    proof -
      from Cons.prems(2) that obtain e where "t = JObj e" "map_of e ''embedding'' = None"
        by blast
      then show ?thesis by (simp add: delete_absent)
    qed
    then show ?thesis by (simp add: map_idI)
  qed
  show ?case
  proof (cases embs)
    case Nil
    with Cons.prems(1) plain show ?thesis by simp
  next
    case (Cons emb embs')
    with Cons.prems(1) d obtain rest where
      r: "attach_embeddings parses n docs embs' = Inr rest"
      and o: "docs' = JObj (AList.update ''embedding'' emb d) # rest"
      by (auto simp: ebind_Inr_iff)
    have "map drop_embedding rest = docs"
      using Cons.IH[OF r] Cons.prems(2) by simp
    with o d show ?thesis by (simp add: delete_update_absent)
  qed
qed

lemma add_embeddings_openai_attach:
  "add_embeddings_openai parses key service docs b = Inr r \<Longrightarrow>
     \<exists>n embs. attach_embeddings parses (Some n) docs embs = Inr (snd r)"
proof -
  assume a: "add_embeddings_openai parses key service docs b = Inr r"
  then obtain embeddings where
    c: "(case embeddings of
           [] \<Rightarrow> Inl (ValueError ''No embeddings returned from OpenAI'')
         | e # es \<Rightarrow>
             ebind (py_len e) (\<lambda>n.
             ebind (attach_embeddings parses (Some n) docs embeddings) (\<lambda>docs'.
               Inr (n, docs')))) = Inr r"
    unfolding add_embeddings_openai_def by (auto simp: ebind_Inr_iff split: if_splits)
  show ?thesis
  proof (cases embeddings)
    case Nil
    with c show ?thesis by simp
  next
    case (Cons e es)
    with c obtain n docs' where
      "attach_embeddings parses (Some n) docs embeddings = Inr docs'" "r = (n, docs')"
      by (auto simp: ebind_Inr_iff)
    then show ?thesis by auto
  qed
qed

lemma add_embeddings_sentence_transformers_attach:
  "add_embeddings_sentence_transformers parses n encode docs = Inr r \<Longrightarrow>
     \<exists>embs. attach_embeddings parses n docs embs = Inr (snd r)"
  by (auto simp: add_embeddings_sentence_transformers_def ebind_Inr_iff)

lemma run_pipeline_transformed:
  assumes "run_pipeline E raw limit skip provider = Inr out"
  shows "\<exists>ts. transform_all E (apply_limit raw limit) = Inr ts \<and> map drop_embedding out = ts"
proof -
  from assms obtain ts where ts: "transform_all E (apply_limit raw limit) = Inr ts"
    and rest: "(if \<not> skip then
             (if provider = ''openai''
              then ebind (add_embeddings_openai (ext_fromisoformat_ok E) (ext_api_key E)
                            (ext_create E) ts 100) (\<lambda>r. Inr (snd r))
              else ebind (add_embeddings_sentence_transformers (ext_fromisoformat_ok E)
                            (ext_st_dim E) (ext_st_encode E) ts) (\<lambda>r. Inr (snd r)))
           else Inr ts) = Inr out"
    unfolding run_pipeline_def Let_def ebind_Inr_iff by blast
  have shape: "\<forall>t\<in>set ts. \<exists>d. t = JObj d \<and> map_of d ''embedding'' = None"
    using transform_all_survivors[OF ts] record_of_no_embedding by auto
  have plain: "map drop_embedding ts = ts"
  proof -
    have "drop_embedding t = t" if "t \<in> set ts" for t
      using shape that by (auto simp: delete_absent)
    then show ?thesis by (simp add: map_idI)
  qed
  have "map drop_embedding out = ts"
  proof (cases skip)
    case True
    with rest plain show ?thesis by simp
  next
    case False
    show ?thesis
    proof (cases "provider = ''openai''")
      case True
      with rest False obtain r where
        "add_embeddings_openai (ext_fromisoformat_ok E) (ext_api_key E) (ext_create E) ts 100
           = Inr r" "snd r = out"
        by (auto simp: ebind_Inr_iff)
      with add_embeddings_openai_attach obtain n embs where
        "attach_embeddings (ext_fromisoformat_ok E) (Some n) ts embs = Inr out"
        by blast
      then show ?thesis using shape by (rule attach_embeddings_order)
    next
      case neq: False
      with rest False obtain r where
        "add_embeddings_sentence_transformers (ext_fromisoformat_ok E) (ext_st_dim E)
           (ext_st_encode E) ts = Inr r" "snd r = out"
        by (auto simp: ebind_Inr_iff)
      with add_embeddings_sentence_transformers_attach obtain embs where
        "attach_embeddings (ext_fromisoformat_ok E) (ext_st_dim E) ts embs = Inr out"
        by blast
      then show ?thesis using shape by (rule attach_embeddings_order)
    qed
  qed
  with ts show ?thesis by blast
qed

lemma sample_doc_transformed:
  "transform_validated sample_env sample_doc = Inr sample_transformed"
  by code_simp

lemma sample_doc_no_id_dropped:
  "transform_validated sample_env sample_doc_no_id
     = Inl (ValueError ''Missing required metadata.external_id'')"
  by code_simp

text \<open>
  C2: when the pipeline writes its output, the documents written are, without their
  embeddings, the records of the documents of the input (after the prefix limit) that are
  not dropped, one for each and in the order of the input: neither the transformation nor
  one of the two embedding strategies moves a document.
\<close>

theorem run_pipeline_order:
  "run_pipeline E raw limit skip provider = Inr out \<Longrightarrow>
     map drop_embedding out
       = map (record_of E) (filter (\<lambda>doc. \<not> dropped E doc) (apply_limit raw limit))"
  using run_pipeline_transformed transform_all_survivors by blast

theorem run_pipeline_order_witness:
  "run_pipeline sample_env [sample_doc_no_id, sample_doc, sample_doc] None False ''openai''
     = Inr [sample_embedded 0, sample_embedded 1]
   \<and> map drop_embedding [sample_embedded 0, sample_embedded 1]
       = map (record_of sample_env)
           (filter (\<lambda>doc. \<not> dropped sample_env doc)
              (apply_limit [sample_doc_no_id, sample_doc, sample_doc] None))"
proof -
  have e: "run_pipeline sample_env [sample_doc_no_id, sample_doc, sample_doc] None False ''openai''
             = Inr [sample_embedded 0, sample_embedded 1]"
    by code_simp
  from run_pipeline_order[OF e] e show ?thesis by simp
qed

text \<open>The local strategy on the same input, with a limit of two documents.\<close>

lemma sample_run_local:
  "run_pipeline sample_env [sample_doc_no_id, sample_doc, sample_doc] (Some 2) False ''local''
     = Inr [sample_embedded 0]"
  by code_simp

text \<open>
  C10: a limit of 0 is falsy at line 264, so the input is not cut to its empty prefix:
  \<^verbatim>\<open>run_pipeline\<close> with the limit 0 processes the whole input and does what it does with no
  limit.
\<close>

theorem run_pipeline_limit_zero:
  "apply_limit raw (Some 0) = raw
   \<and> run_pipeline E raw (Some 0) skip provider = run_pipeline E raw None skip provider"
  by (simp add: run_pipeline_def apply_limit_def)

theorem run_pipeline_limit_zero_witness:
  "run_pipeline sample_env [sample_doc, sample_doc_no_id] (Some 0) True ''openai''
     = Inr [sample_transformed]"
proof -
  have "run_pipeline sample_env [sample_doc, sample_doc_no_id] None True ''openai''
          = Inr [sample_transformed]"
    by code_simp
  with run_pipeline_limit_zero[of "[sample_doc, sample_doc_no_id]" sample_env True "''openai''"]
  show ?thesis by simp
qed


section \<open>Totality of the metadata extractor on well-shaped documents\<close>

lemma first_label_ok:
  "list_all (\<lambda>k. label_ok (lookup it k)) keys \<Longrightarrow>
     \<exists>r. first_label (JObj it) keys = Inr r \<and> (\<forall>v. r = Some v \<longrightarrow> is_str v)"
  by (induction keys) (auto simp: label_ok_def)

lemma collect_loop_ok:
  "list_all item_ok items \<Longrightarrow> list_all is_str names \<Longrightarrow>
     \<exists>ns. collect_loop items names = Inr ns \<and> list_all is_str ns"
proof (induction items arbitrary: names)
  case Nil
  then show ?case by simp
next
  case (Cons item items)
  from Cons.prems(1) obtain it where it: "item = JObj it"
    and labels: "list_all (\<lambda>k. label_ok (lookup it k)) label_keys"
    by (cases item) (auto simp: item_ok_def)
  from first_label_ok[OF labels] obtain r where
    r: "first_label (JObj it) label_keys = Inr r" and s: "\<forall>v. r = Some v \<longrightarrow> is_str v"
    by blast
  have "list_all is_str (case r of None \<Rightarrow> names | Some val \<Rightarrow> names @ [val])"
    using Cons.prems(2) s by (cases r) auto
  from Cons.IH[OF _ this] Cons.prems(1) it r show ?case by simp
qed

lemma taxonomy_names_ok:
  "names_ok (lookup td k) \<Longrightarrow>
     \<exists>ns. taxonomy_names (JObj td) k = Inr ns \<and> list_all is_str ns"
proof -
  assume a: "names_ok (lookup td k)"
  show ?thesis
  proof (cases "lookup td k")
    case (JList items)
    with a have "list_all item_ok items" by (simp add: names_ok_def)
    from collect_loop_ok[OF this, of "[]"] JList show ?thesis
      by (cases "items = []") (auto simp: taxonomy_names_def collect_names_def)
  qed (use a in \<open>auto simp: taxonomy_names_def collect_names_def names_ok_def\<close>)
qed

lemma dedupe_loop_strings:
  "list_all is_str ns \<Longrightarrow> \<exists>out. dedupe_loop (map Inr ns) seen ordered = Inr out"
proof (induction ns arbitrary: seen ordered)
  case Nil
  show ?case by simp
next
  case (Cons n ns)
  then obtain s where "n = JStr s" by (cases n) auto
  with Cons show ?case by simp
qed

lemma lstrip_at_strings:
  "list_all is_str ns \<Longrightarrow> \<exists>ms. map lstrip_at ns = map Inr ms \<and> list_all is_str ms"
proof (induction ns)
  case Nil
  show ?case by simp
next
  case (Cons n ns)
  then obtain s where n: "n = JStr s" by (cases n) auto
  from Cons obtain ms where "map lstrip_at ns = map Inr ms" "list_all is_str ms" by auto
  with n have "map lstrip_at (n # ns) = map Inr (JStr (dropWhile (\<lambda>c. c = CHR ''@'') s) # ms)
               \<and> list_all is_str (JStr (dropWhile (\<lambda>c. c = CHR ''@'') s) # ms)"
    by simp
  then show ?case by blast
qed

lemma taxonomy_lists_ok:
  assumes "taxonomy_ok t"
  shows "\<exists>sections categories tags.
           ebind (taxonomy_names (if truthy t then t else JObj []) ''sections'')
             (\<lambda>ns. dedupe_preserve (map Inr ns)) = Inr sections
           \<and> ebind (taxonomy_names (if truthy t then t else JObj []) ''categories'')
             (\<lambda>ns. dedupe_preserve (map Inr ns)) = Inr categories
           \<and> ebind (taxonomy_names (if truthy t then t else JObj []) ''tags'')
             (\<lambda>ns. dedupe_preserve (map lstrip_at ns)) = Inr tags"
proof -
  obtain td where td: "(if truthy t then t else JObj []) = JObj td"
    and ok: "names_ok (lookup td ''sections'')" "names_ok (lookup td ''categories'')"
            "names_ok (lookup td ''tags'')"
  proof (cases "truthy t")
    case True
    with assms obtain d where "t = JObj d" by (cases t) (auto simp: taxonomy_ok_def)
    with assms True that show ?thesis by (simp add: taxonomy_ok_def)
  next
    case False
    with that[of "[]"] show ?thesis by (simp add: names_ok_def lookup_def)
  qed
  from taxonomy_names_ok[OF ok(1)] obtain n1 where
    n1: "taxonomy_names (JObj td) ''sections'' = Inr n1" "list_all is_str n1" by blast
  from taxonomy_names_ok[OF ok(2)] obtain n2 where
    n2: "taxonomy_names (JObj td) ''categories'' = Inr n2" "list_all is_str n2" by blast
  from taxonomy_names_ok[OF ok(3)] obtain n3 where
    n3: "taxonomy_names (JObj td) ''tags'' = Inr n3" "list_all is_str n3" by blast
  from lstrip_at_strings[OF n3(2)] obtain m3 where
    m3: "map lstrip_at n3 = map Inr m3" "list_all is_str m3" by blast
  from dedupe_loop_strings[OF n1(2)] dedupe_loop_strings[OF n2(2)] dedupe_loop_strings[OF m3(2)]
  show ?thesis unfolding td by (simp add: n1 n2 n3 m3 dedupe_preserve_def)
qed

lemma probe_thumb_ok:
  "list_all (\<lambda>k. case map_of pd k of None \<Rightarrow> True | Some v \<Rightarrow> is_dict v) keys \<Longrightarrow>
     \<exists>thumb. probe_thumb (JObj pd) keys = Inr thumb"
proof (induction keys)
  case Nil
  show ?case by simp
next
  case (Cons key keys)
  show ?case
  proof (cases "map_of pd key")
    case None
    with Cons show ?thesis by simp
  next
    case (Some v)
    with Cons.prems obtain d where "v = JObj d" by (cases v) auto
    with Some Cons show ?thesis by simp
  qed
qed

lemma promo_thumb_ok:
  assumes "promo_ok p"
  shows "\<exists>thumb. probe_thumb (if truthy p then p else JObj []) thumb_keys = Inr thumb"
proof (cases "truthy p")
  case True
  with assms obtain pd where "p = JObj pd" by (cases p) (auto simp: promo_ok_def)
  with assms True probe_thumb_ok[of pd thumb_keys] show ?thesis by (simp add: promo_ok_def)
next
  case False
  with probe_thumb_ok[of "[]" thumb_keys] show ?thesis by (simp add: thumb_keys_def)
qed

lemma headlines_title_ok:
  "is_dict h \<or> \<not> truthy h \<Longrightarrow>
     \<exists>title. dict_get (if truthy h then h else JObj []) ''basic'' = Inr title"
  by (cases h) auto

lemma build_url_ok:
  "is_str (chosen d ''canonical_url'' ''website_url'')
     \<or> \<not> truthy (chosen d ''canonical_url'' ''website_url'') \<Longrightarrow>
   \<exists>url. build_url s (JObj d) = Inr url"
  by (cases "chosen d ''canonical_url'' ''website_url''") (auto simp: build_url_def)

text \<open>
  C3, as stated: \<^verbatim>\<open>extract_metadata\<close> returns a Metadata for every raw document, also when a
  taxonomy item, a promo value, a url candidate or a tag label has an unexpected shape. This
  fails on each of the four: a taxonomy item that is a string and a promo value that is a
  string have no \<^verbatim>\<open>get\<close>, a url candidate that is a number has no \<^verbatim>\<open>startswith\<close>, a tag
  label that is a number has no \<^verbatim>\<open>lstrip\<close>.
\<close>

theorem extract_metadata_raises:
  "extract_metadata sample_str_of
     (JObj [(''taxonomy'', JObj [(''sections'', JList [JStr ''news''])])]) = Inl AttributeError
   \<and> extract_metadata sample_str_of
     (JObj [(''promo_items'', JObj [(''basic'', JStr ''thumb.png'')])]) = Inl AttributeError
   \<and> extract_metadata sample_str_of (JObj [(''canonical_url'', JInt 5)]) = Inl AttributeError
   \<and> extract_metadata sample_str_of
     (JObj [(''taxonomy'', JObj [(''tags'', JList [JObj [(''name'', JInt 5)]])])])
     = Inl AttributeError"
  by code_simp

text \<open>
  C3, amended: \<^verbatim>\<open>extract_metadata\<close> returns a Metadata, and does not raise, for every raw
  document that is well shaped: a dictionary whose taxonomy is falsy or a dictionary of
  lists (or falsy values) of dictionaries with string or falsy labels, whose promo items
  are falsy or a dictionary with dictionaries at the probed keys, whose headlines are falsy
  or a dictionary, and whose url candidate is falsy or a string.
\<close>

theorem extract_metadata_total:
  "well_shaped doc \<Longrightarrow> \<exists>md. extract_metadata s doc = Inr md"
proof -
  assume w: "well_shaped doc"
  then obtain d where doc: "doc = JObj d" by (cases doc) (auto simp: well_shaped_def)
  from w doc have t: "taxonomy_ok (lookup d ''taxonomy'')"
    and p: "promo_ok (lookup d ''promo_items'')"
    and h: "is_dict (lookup d ''headlines'') \<or> \<not> truthy (lookup d ''headlines'')"
    and u: "is_str (chosen d ''canonical_url'' ''website_url'')
            \<or> \<not> truthy (chosen d ''canonical_url'' ''website_url'')"
    by (simp_all add: well_shaped_def)
  from taxonomy_lists_ok[OF t] obtain sections categories tags where
    lists: "ebind (taxonomy_names (if truthy (lookup d ''taxonomy'') then lookup d ''taxonomy''
                                   else JObj []) ''sections'')
              (\<lambda>ns. dedupe_preserve (map Inr ns)) = Inr sections"
           "ebind (taxonomy_names (if truthy (lookup d ''taxonomy'') then lookup d ''taxonomy''
                                   else JObj []) ''categories'')
              (\<lambda>ns. dedupe_preserve (map Inr ns)) = Inr categories"
           "ebind (taxonomy_names (if truthy (lookup d ''taxonomy'') then lookup d ''taxonomy''
                                   else JObj []) ''tags'')
              (\<lambda>ns. dedupe_preserve (map lstrip_at ns)) = Inr tags"
    by blast
  from promo_thumb_ok[OF p] obtain thumb where
    thumb: "probe_thumb (if truthy (lookup d ''promo_items'') then lookup d ''promo_items''
                         else JObj []) thumb_keys = Inr thumb"
    by blast
  from headlines_title_ok[OF h] obtain title where
    title: "dict_get (if truthy (lookup d ''headlines'') then lookup d ''headlines''
                      else JObj []) ''basic'' = Inr title"
    by blast
  from build_url_ok[OF u] obtain url where url: "build_url s (JObj d) = Inr url"
    by blast
  show ?thesis
    unfolding doc extract_metadata_def Let_def
    by (simp add: lists thumb title url)
qed

theorem extract_metadata_total_witness:
  "well_shaped sample_doc \<and> (\<exists>md. extract_metadata sample_str_of sample_doc = Inr md)"
proof -
  have w: "well_shaped sample_doc" by code_simp
  from extract_metadata_total[OF w] w show ?thesis by blast
qed


end
